theory Spec2Isabelle
  imports Main "HOL-Library.Word"
begin

unbundle bit_operations_syntax

section \<open>Codec primitives (cbor.go)\<close>

text \<open>
  Go's fixed-width integers are words: \<open>byte\<close> is \<open>8 word\<close>, \<open>uint64\<close> and \<open>int64\<close> are
  \<open>64 word\<close> (an \<open>int64\<close> is read with \<open>sint\<close>, compared with \<open>\<le>s\<close> and \<open><s\<close>).
  \<open>MajorType\<close>, \<open>AdditionalInfo\<close> and \<open>SimpleValue\<close> are declared \<open>byte\<close> in the source,
  \<open>CborTag\<close> is \<open>uint64\<close>, \<open>CborReaderState\<close> and \<open>CborConformanceMode\<close> are \<open>int\<close> with
  \<open>iota\<close> constants; the named constants are abbreviations of their numeric values.
\<close>

type_synonym byte = "8 word"
type_synonym uint16 = "16 word"
type_synonym uint32 = "32 word"
type_synonym uint64 = "64 word"
type_synonym int64 = "64 word"

type_synonym MajorType = byte
type_synonym CborTag = uint64
type_synonym CborReaderState = int
type_synonym CborConformanceMode = int

abbreviation (input) MajorTypeUnsignedInteger :: MajorType where "MajorTypeUnsignedInteger \<equiv> 0"
abbreviation (input) MajorTypeNegativeInteger :: MajorType where "MajorTypeNegativeInteger \<equiv> 1"
abbreviation (input) MajorTypeByteString :: MajorType where "MajorTypeByteString \<equiv> 2"
abbreviation (input) MajorTypeTextString :: MajorType where "MajorTypeTextString \<equiv> 3"
abbreviation (input) MajorTypeArray :: MajorType where "MajorTypeArray \<equiv> 4"
abbreviation (input) MajorTypeMap :: MajorType where "MajorTypeMap \<equiv> 5"
abbreviation (input) MajorTypeTag :: MajorType where "MajorTypeTag \<equiv> 6"
abbreviation (input) MajorTypeSimpleOrFloat :: MajorType where "MajorTypeSimpleOrFloat \<equiv> 7"

abbreviation (input) AdditionalInfo8Bit :: byte where "AdditionalInfo8Bit \<equiv> 24"
abbreviation (input) AdditionalInfo16Bit :: byte where "AdditionalInfo16Bit \<equiv> 25"
abbreviation (input) AdditionalInfo32Bit :: byte where "AdditionalInfo32Bit \<equiv> 26"
abbreviation (input) AdditionalInfo64Bit :: byte where "AdditionalInfo64Bit \<equiv> 27"
abbreviation (input) AdditionalInfoIndefiniteLength :: byte where "AdditionalInfoIndefiniteLength \<equiv> 31"

abbreviation (input) SimpleValueFalse :: byte where "SimpleValueFalse \<equiv> 20"
abbreviation (input) SimpleValueTrue :: byte where "SimpleValueTrue \<equiv> 21"
abbreviation (input) SimpleValueNull :: byte where "SimpleValueNull \<equiv> 22"
abbreviation (input) SimpleValueUndefined :: byte where "SimpleValueUndefined \<equiv> 23"

abbreviation (input) TagUnsignedBignum :: CborTag where "TagUnsignedBignum \<equiv> 2"
abbreviation (input) TagNegativeBignum :: CborTag where "TagNegativeBignum \<equiv> 3"

abbreviation (input) StateUndefined :: CborReaderState where "StateUndefined \<equiv> 0"
abbreviation (input) StateUnsignedInteger :: CborReaderState where "StateUnsignedInteger \<equiv> 1"
abbreviation (input) StateNegativeInteger :: CborReaderState where "StateNegativeInteger \<equiv> 2"
abbreviation (input) StateByteString :: CborReaderState where "StateByteString \<equiv> 3"
abbreviation (input) StateTextString :: CborReaderState where "StateTextString \<equiv> 4"
abbreviation (input) StateStartArray :: CborReaderState where "StateStartArray \<equiv> 5"
abbreviation (input) StateEndArray :: CborReaderState where "StateEndArray \<equiv> 6"
abbreviation (input) StateStartMap :: CborReaderState where "StateStartMap \<equiv> 7"
abbreviation (input) StateEndMap :: CborReaderState where "StateEndMap \<equiv> 8"
abbreviation (input) StateTag :: CborReaderState where "StateTag \<equiv> 9"
abbreviation (input) StateSimpleValue :: CborReaderState where "StateSimpleValue \<equiv> 10"
abbreviation (input) StateHalfPrecisionFloat :: CborReaderState where "StateHalfPrecisionFloat \<equiv> 11"
abbreviation (input) StateSinglePrecisionFloat :: CborReaderState where "StateSinglePrecisionFloat \<equiv> 12"
abbreviation (input) StateDoublePrecisionFloat :: CborReaderState where "StateDoublePrecisionFloat \<equiv> 13"
abbreviation (input) StateNull :: CborReaderState where "StateNull \<equiv> 14"
abbreviation (input) StateBoolean :: CborReaderState where "StateBoolean \<equiv> 15"
abbreviation (input) StateUndefinedValue :: CborReaderState where "StateUndefinedValue \<equiv> 16"
abbreviation (input) StateStartIndefiniteLengthByteString :: CborReaderState
  where "StateStartIndefiniteLengthByteString \<equiv> 17"
abbreviation (input) StateEndIndefiniteLengthByteString :: CborReaderState
  where "StateEndIndefiniteLengthByteString \<equiv> 18"
abbreviation (input) StateStartIndefiniteLengthTextString :: CborReaderState
  where "StateStartIndefiniteLengthTextString \<equiv> 19"
abbreviation (input) StateEndIndefiniteLengthTextString :: CborReaderState
  where "StateEndIndefiniteLengthTextString \<equiv> 20"
abbreviation (input) StateFinished :: CborReaderState where "StateFinished \<equiv> 21"

abbreviation (input) ConformanceLax :: CborConformanceMode where "ConformanceLax \<equiv> 0"
abbreviation (input) ConformanceStrict :: CborConformanceMode where "ConformanceStrict \<equiv> 1"
abbreviation (input) ConformanceCanonical :: CborConformanceMode where "ConformanceCanonical \<equiv> 2"
abbreviation (input) ConformanceCtap2Canonical :: CborConformanceMode
  where "ConformanceCtap2Canonical \<equiv> 3"

abbreviation (input) breakByte :: byte where "breakByte \<equiv> 0xFF"

text \<open>errors.go: the sentinel errors, and \<open>TypeMismatchError{Expected, Actual}\<close>.\<close>

datatype cbor_error =
    ErrUnexpectedEndOfData
  | ErrInvalidCbor
  | ErrInvalidMajorType
  | ErrInvalidSimpleValue
  | ErrInvalidUtf8
  | ErrOverflow
  | ErrUnexpectedBreak
  | ErrNonCanonical
  | ErrNotAtEnd
  | ErrInvalidState
  | ErrDuplicateKey
  | ErrUnsortedKeys
  | ErrIndefiniteLengthNotAllowed
  | ErrBufferTooSmall
  | ErrNestingDepthExceeded
  | ErrMissingBreak
  | ErrIncompleteContainer
  | ErrExtraItems
  | TypeMismatchError CborReaderState CborReaderState

definition encodeInitialByte :: "MajorType \<Rightarrow> byte \<Rightarrow> byte" where
  "encodeInitialByte mt ai = push_bit 5 mt OR (ai AND 0x1F)"

definition decodeInitialByte :: "byte \<Rightarrow> MajorType \<times> byte" where
  "decodeInitialByte b = (drop_bit 5 b, b AND 0x1F)"

text \<open>\<open>binary.BigEndian.AppendUint16/32/64\<close> and \<open>binary.BigEndian.Uint16/32/64\<close>.\<close>

definition AppendUint16 :: "byte list \<Rightarrow> uint16 \<Rightarrow> byte list" where
  "AppendUint16 b v = b @ [ucast (drop_bit 8 v), ucast v]"

definition AppendUint32 :: "byte list \<Rightarrow> uint32 \<Rightarrow> byte list" where
  "AppendUint32 b v =
     b @ [ucast (drop_bit 24 v), ucast (drop_bit 16 v), ucast (drop_bit 8 v), ucast v]"

definition AppendUint64 :: "byte list \<Rightarrow> uint64 \<Rightarrow> byte list" where
  "AppendUint64 b v =
     b @ [ucast (drop_bit 56 v), ucast (drop_bit 48 v), ucast (drop_bit 40 v),
          ucast (drop_bit 32 v), ucast (drop_bit 24 v), ucast (drop_bit 16 v),
          ucast (drop_bit 8 v), ucast v]"

definition Uint16 :: "byte list \<Rightarrow> uint16" where
  "Uint16 b = ucast (b ! 1) OR push_bit 8 (ucast (b ! 0))"

definition Uint32 :: "byte list \<Rightarrow> uint32" where
  "Uint32 b = ucast (b ! 3) OR push_bit 8 (ucast (b ! 2)) OR push_bit 16 (ucast (b ! 1))
              OR push_bit 24 (ucast (b ! 0))"

definition Uint64 :: "byte list \<Rightarrow> uint64" where
  "Uint64 b = ucast (b ! 7) OR push_bit 8 (ucast (b ! 6)) OR push_bit 16 (ucast (b ! 5))
              OR push_bit 24 (ucast (b ! 4)) OR push_bit 32 (ucast (b ! 3))
              OR push_bit 40 (ucast (b ! 2)) OR push_bit 48 (ucast (b ! 1))
              OR push_bit 56 (ucast (b ! 0))"

section \<open>Encoder (writer.go)\<close>

record nestingInfo =
  majorType :: MajorType
  definiteLength :: int64
  itemsWritten :: int64
  isMap :: bool
  keyWritten :: bool
  isIndefinite :: bool

text \<open>
  The nesting stack is a Go slice: \<open>append\<close> adds at the end and the innermost frame is
  the last element.
\<close>

record CborWriter =
  buffer :: "byte list"
  conformanceMode :: CborConformanceMode
  nestingStack :: "nestingInfo list"
  maxNestingDepth :: int
  currentOffset :: nat
  allowMultipleRootValues :: bool
  rootValueWritten :: bool

definition NewCborWriter :: CborWriter where
  "NewCborWriter =
     \<lparr>buffer = [], conformanceMode = ConformanceLax, nestingStack = [],
      maxNestingDepth = 64, currentOffset = 0, allowMultipleRootValues = False,
      rootValueWritten = False\<rparr>"

definition WithConformanceMode :: "CborConformanceMode \<Rightarrow> CborWriter \<Rightarrow> CborWriter" where
  "WithConformanceMode mode w = w\<lparr>conformanceMode := mode\<rparr>"

definition WithMaxNestingDepth :: "int \<Rightarrow> CborWriter \<Rightarrow> CborWriter" where
  "WithMaxNestingDepth depth w = w\<lparr>maxNestingDepth := depth\<rparr>"

definition checkNestingDepth :: "CborWriter \<Rightarrow> cbor_error option" where
  "checkNestingDepth w =
     (if int (length (nestingStack w)) \<ge> maxNestingDepth w then Some ErrNestingDepthExceeded
      else None)"

definition advanceFrame :: "nestingInfo \<Rightarrow> nestingInfo" where
  "advanceFrame info =
     (if isMap info then
        (if keyWritten info
         then info\<lparr>keyWritten := False, itemsWritten := itemsWritten info + 1\<rparr>
         else info\<lparr>keyWritten := True\<rparr>)
      else info\<lparr>itemsWritten := itemsWritten info + 1\<rparr>)"

definition advanceContainer :: "CborWriter \<Rightarrow> CborWriter" where
  "advanceContainer w =
     (if length (nestingStack w) = 0 then w\<lparr>rootValueWritten := True\<rparr>
      else w\<lparr>nestingStack :=
             (nestingStack w)[length (nestingStack w) - 1 :=
                advanceFrame (nestingStack w ! (length (nestingStack w) - 1))]\<rparr>)"

definition writeMinimalInitialByte :: "CborWriter \<Rightarrow> MajorType \<Rightarrow> uint64 \<Rightarrow> CborWriter" where
  "writeMinimalInitialByte w mt val =
     (let b =
        (if val < 24 then buffer w @ [encodeInitialByte mt (ucast val)]
         else if val \<le> 0xFF
           then buffer w @ [encodeInitialByte mt AdditionalInfo8Bit, ucast val]
         else if val \<le> 0xFFFF
           then AppendUint16 (buffer w @ [encodeInitialByte mt AdditionalInfo16Bit]) (ucast val)
         else if val \<le> 0xFFFFFFFF
           then AppendUint32 (buffer w @ [encodeInitialByte mt AdditionalInfo32Bit]) (ucast val)
         else AppendUint64 (buffer w @ [encodeInitialByte mt AdditionalInfo64Bit]) val)
      in w\<lparr>buffer := b, currentOffset := length b\<rparr>)"

text \<open>The writer operations return Go's \<open>error\<close> (\<open>None\<close> is \<open>nil\<close>) and the writer after the call.\<close>

definition WriteInt64 :: "int64 \<Rightarrow> CborWriter \<Rightarrow> cbor_error option \<times> CborWriter" where
  "WriteInt64 val w =
     (if 0 \<le>s val
      then (None, advanceContainer (writeMinimalInitialByte w MajorTypeUnsignedInteger val))
      else (None, advanceContainer
                    (writeMinimalInitialByte w MajorTypeNegativeInteger (- 1 - val))))"

definition WriteUint64 :: "uint64 \<Rightarrow> CborWriter \<Rightarrow> cbor_error option \<times> CborWriter" where
  "WriteUint64 val w =
     (None, advanceContainer (writeMinimalInitialByte w MajorTypeUnsignedInteger val))"

definition WriteByteString :: "byte list \<Rightarrow> CborWriter \<Rightarrow> cbor_error option \<times> CborWriter" where
  "WriteByteString val w =
     (let w1 = writeMinimalInitialByte w MajorTypeByteString (word_of_nat (length val));
          w2 = w1\<lparr>buffer := buffer w1 @ val\<rparr>;
          w3 = w2\<lparr>currentOffset := length (buffer w2)\<rparr>
      in (None, advanceContainer w3))"

definition pushFrame :: "CborWriter \<Rightarrow> nestingInfo \<Rightarrow> CborWriter" where
  "pushFrame w info = w\<lparr>nestingStack := nestingStack w @ [info]\<rparr>"

definition canonicalMode :: "CborWriter \<Rightarrow> bool" where
  "canonicalMode w =
     (conformanceMode w = ConformanceCanonical \<or> conformanceMode w = ConformanceCtap2Canonical)"

definition appendByte :: "CborWriter \<Rightarrow> byte \<Rightarrow> CborWriter" where
  "appendByte w b = w\<lparr>buffer := buffer w @ [b], currentOffset := length (buffer w @ [b])\<rparr>"

definition WriteStartArray :: "int64 \<Rightarrow> CborWriter \<Rightarrow> cbor_error option \<times> CborWriter" where
  "WriteStartArray len w =
     (case checkNestingDepth w of
        Some err \<Rightarrow> (Some err, w)
      | None \<Rightarrow>
          (None, pushFrame (writeMinimalInitialByte w MajorTypeArray len)
             \<lparr>majorType = MajorTypeArray, definiteLength = len, itemsWritten = 0,
              isMap = False, keyWritten = False, isIndefinite = False\<rparr>))"

definition WriteStartIndefiniteLengthArray :: "CborWriter \<Rightarrow> cbor_error option \<times> CborWriter" where
  "WriteStartIndefiniteLengthArray w =
     (if canonicalMode w then (Some ErrIndefiniteLengthNotAllowed, w)
      else case checkNestingDepth w of
        Some err \<Rightarrow> (Some err, w)
      | None \<Rightarrow>
          (None, pushFrame
             (appendByte w (encodeInitialByte MajorTypeArray AdditionalInfoIndefiniteLength))
             \<lparr>majorType = MajorTypeArray, definiteLength = - 1, itemsWritten = 0,
              isMap = False, keyWritten = False, isIndefinite = True\<rparr>))"

definition popFrame :: "CborWriter \<Rightarrow> CborWriter" where
  "popFrame w = w\<lparr>nestingStack := take (length (nestingStack w) - 1) (nestingStack w)\<rparr>"

definition WriteEndArray :: "CborWriter \<Rightarrow> cbor_error option \<times> CborWriter" where
  "WriteEndArray w =
     (if length (nestingStack w) = 0 then (Some ErrInvalidState, w)
      else let info = nestingStack w ! (length (nestingStack w) - 1) in
        if majorType info \<noteq> MajorTypeArray then (Some ErrInvalidState, w)
        else if isIndefinite info
          then (None, advanceContainer (popFrame (appendByte w breakByte)))
        else if itemsWritten info \<noteq> definiteLength info
          then (if itemsWritten info <s definiteLength info
                then (Some ErrIncompleteContainer, w) else (Some ErrExtraItems, w))
        else (None, advanceContainer (popFrame w)))"

definition WriteStartMap :: "int64 \<Rightarrow> CborWriter \<Rightarrow> cbor_error option \<times> CborWriter" where
  "WriteStartMap len w =
     (case checkNestingDepth w of
        Some err \<Rightarrow> (Some err, w)
      | None \<Rightarrow>
          (None, pushFrame (writeMinimalInitialByte w MajorTypeMap len)
             \<lparr>majorType = MajorTypeMap, definiteLength = len, itemsWritten = 0,
              isMap = True, keyWritten = False, isIndefinite = False\<rparr>))"

definition WriteStartIndefiniteLengthMap :: "CborWriter \<Rightarrow> cbor_error option \<times> CborWriter" where
  "WriteStartIndefiniteLengthMap w =
     (if canonicalMode w then (Some ErrIndefiniteLengthNotAllowed, w)
      else case checkNestingDepth w of
        Some err \<Rightarrow> (Some err, w)
      | None \<Rightarrow>
          (None, pushFrame
             (appendByte w (encodeInitialByte MajorTypeMap AdditionalInfoIndefiniteLength))
             \<lparr>majorType = MajorTypeMap, definiteLength = - 1, itemsWritten = 0,
              isMap = True, keyWritten = False, isIndefinite = True\<rparr>))"

definition WriteEndMap :: "CborWriter \<Rightarrow> cbor_error option \<times> CborWriter" where
  "WriteEndMap w =
     (if length (nestingStack w) = 0 then (Some ErrInvalidState, w)
      else let info = nestingStack w ! (length (nestingStack w) - 1) in
        if majorType info \<noteq> MajorTypeMap then (Some ErrInvalidState, w)
        else if keyWritten info then (Some ErrIncompleteContainer, w)
        else if isIndefinite info
          then (None, advanceContainer (popFrame (appendByte w breakByte)))
        else if itemsWritten info \<noteq> definiteLength info
          then (if itemsWritten info <s definiteLength info
                then (Some ErrIncompleteContainer, w) else (Some ErrExtraItems, w))
        else (None, advanceContainer (popFrame w)))"

definition WriteTag :: "CborTag \<Rightarrow> CborWriter \<Rightarrow> cbor_error option \<times> CborWriter" where
  "WriteTag tag w = (None, writeMinimalInitialByte w MajorTypeTag tag)"

definition WriteStartIndefiniteLengthByteString ::
  "CborWriter \<Rightarrow> cbor_error option \<times> CborWriter" where
  "WriteStartIndefiniteLengthByteString w =
     (if canonicalMode w then (Some ErrIndefiniteLengthNotAllowed, w)
      else case checkNestingDepth w of
        Some err \<Rightarrow> (Some err, w)
      | None \<Rightarrow>
          (None, pushFrame
             (appendByte w (encodeInitialByte MajorTypeByteString AdditionalInfoIndefiniteLength))
             \<lparr>majorType = MajorTypeByteString, definiteLength = - 1, itemsWritten = 0,
              isMap = False, keyWritten = False, isIndefinite = True\<rparr>))"

definition WriteStartIndefiniteLengthTextString ::
  "CborWriter \<Rightarrow> cbor_error option \<times> CborWriter" where
  "WriteStartIndefiniteLengthTextString w =
     (if canonicalMode w then (Some ErrIndefiniteLengthNotAllowed, w)
      else case checkNestingDepth w of
        Some err \<Rightarrow> (Some err, w)
      | None \<Rightarrow>
          (None, pushFrame
             (appendByte w (encodeInitialByte MajorTypeTextString AdditionalInfoIndefiniteLength))
             \<lparr>majorType = MajorTypeTextString, definiteLength = - 1, itemsWritten = 0,
              isMap = False, keyWritten = False, isIndefinite = True\<rparr>))"


definition WriteFloat16 :: "uint16 \<Rightarrow> CborWriter \<Rightarrow> cbor_error option \<times> CborWriter" where
  "WriteFloat16 bits w =
     (let w1 = w\<lparr>buffer := buffer w @ [encodeInitialByte MajorTypeSimpleOrFloat 25]\<rparr>;
          w2 = w1\<lparr>buffer := AppendUint16 (buffer w1) bits\<rparr>;
          w3 = w2\<lparr>currentOffset := length (buffer w2)\<rparr>
      in (None, advanceContainer w3))"

section \<open>Half-precision conversion (writer.go)\<close>

text \<open>
  A \<open>float32\<close> is modelled by its IEEE 754 bit pattern: \<open>math.Float32bits\<close> and
  \<open>math.Float32frombits\<close> are the identity on \<open>uint32\<close>. \<open>exp\<close> is a Go \<open>int\<close>.
\<close>

definition float32ToFloat16Bits :: "uint32 \<Rightarrow> uint16" where
  "float32ToFloat16Bits bits =
     (let sign = (ucast (drop_bit 16 bits AND 0x8000) :: uint16);
          exp = uint (drop_bit 23 bits AND 0xFF);
          frac = bits AND 0x7FFFFF
      in if exp = 0 then sign
         else if exp = 255 then
           (if frac = 0 then sign OR 0x7C00 else sign OR 0x7C00 OR ucast (drop_bit 13 frac))
         else if exp > 142 then sign OR 0x7C00
         else if exp < 113 then sign
         else (let exp16 = exp - 127 + 15; frac16 = drop_bit 13 frac
               in sign OR word_of_int (push_bit 10 exp16) OR ucast frac16))"

text \<open>
  The normalising loop \<open>for frac&0x400 == 0 { frac <<= 1; exp-- }\<close> of
  \<open>float16BitsToFloat32\<close>; \<open>None\<close> stands for a loop that never ends.
\<close>

partial_function (option) subnormalLoop :: "uint32 \<Rightarrow> int \<Rightarrow> (uint32 \<times> int) option" where
  "subnormalLoop frac exp =
     (if frac AND 0x400 = 0 then subnormalLoop (push_bit 1 frac) (exp - 1)
      else Some (frac, exp))"

declare subnormalLoop.simps [code]

definition normalBody :: "uint32 \<Rightarrow> int \<Rightarrow> uint32 \<Rightarrow> uint32" where
  "normalBody sign exp frac =
     (let exp32 = (word_of_int (exp - 15 + 127) :: uint32)
      in sign OR push_bit 23 exp32 OR push_bit 13 frac)"

definition float16BitsToFloat32 :: "uint16 \<Rightarrow> uint32 option" where
  "float16BitsToFloat32 bits =
     (let sign = push_bit 16 (ucast (bits AND 0x8000) :: uint32);
          exp = uint (drop_bit 10 bits) AND 0x1F;
          frac = (ucast (bits AND 0x3FF) :: uint32)
      in if exp = 0 then
           (if frac = 0 then Some sign
            else case subnormalLoop frac exp of
                   None \<Rightarrow> None
                 | Some (frac1, exp1) \<Rightarrow> Some (normalBody sign (exp1 + 1) (frac1 AND 0x3FF)))
         else if exp < 31 then Some (normalBody sign exp frac)
         else (if frac = 0 then Some (sign OR 0x7F800000)
               else Some (sign OR 0x7F800000 OR push_bit 13 frac)))"

section \<open>Decoder (the reader source, kept in rfc8949\_test.go)\<close>

text \<open>
  The reader's frame and state records have the same field names as the writer's in the
  source; here the reader's carry an \<open>r\<close> where the name would clash.
\<close>

record readerNestingInfo =
  rMajorType :: MajorType
  rDefiniteLength :: int64
  itemsRead :: int64
  rIsMap :: bool
  keyRead :: bool
  rIsIndefinite :: bool

record CborReader =
  data :: "byte list"
  offset :: nat
  rConformanceMode :: CborConformanceMode
  rNestingStack :: "readerNestingInfo list"
  rMaxNestingDepth :: int
  cachedState :: CborReaderState
  stateComputed :: bool
  rAllowMultipleRootValues :: bool

text \<open>
  A reader operation returns its value or its error, and the reader as the call left it
  (the offset moves before some errors are returned). \<open>Panic\<close> is a Go run-time panic:
  an index or slice expression out of range, or \<open>make\<close> with a length out of range.
\<close>

datatype 'a result = Ok 'a | Err cbor_error | Panic

definition NewCborReader :: "byte list \<Rightarrow> CborReader" where
  "NewCborReader d =
     \<lparr>data = d, offset = 0, rConformanceMode = ConformanceLax, rNestingStack = [],
      rMaxNestingDepth = 64, cachedState = StateUndefined, stateComputed = False,
      rAllowMultipleRootValues = False\<rparr>"

definition WithReaderConformanceMode :: "CborConformanceMode \<Rightarrow> CborReader \<Rightarrow> CborReader" where
  "WithReaderConformanceMode mode r = r\<lparr>rConformanceMode := mode\<rparr>"

definition WithReaderMaxNestingDepth :: "int \<Rightarrow> CborReader \<Rightarrow> CborReader" where
  "WithReaderMaxNestingDepth depth r = r\<lparr>rMaxNestingDepth := depth\<rparr>"

definition invalidateState :: "CborReader \<Rightarrow> CborReader" where
  "invalidateState r = r\<lparr>stateComputed := False\<rparr>"

text \<open>The final \<open>switch mt\<close> of \<open>computeState\<close>, on the decoded initial byte.\<close>

definition classifyInitialByte :: "byte \<Rightarrow> CborReaderState result" where
  "classifyInitialByte initialByte =
     (let mt = fst (decodeInitialByte initialByte); ai = snd (decodeInitialByte initialByte)
      in if mt = MajorTypeUnsignedInteger then Ok StateUnsignedInteger
         else if mt = MajorTypeNegativeInteger then Ok StateNegativeInteger
         else if mt = MajorTypeByteString then
           (if ai = AdditionalInfoIndefiniteLength then Ok StateStartIndefiniteLengthByteString
            else Ok StateByteString)
         else if mt = MajorTypeTextString then
           (if ai = AdditionalInfoIndefiniteLength then Ok StateStartIndefiniteLengthTextString
            else Ok StateTextString)
         else if mt = MajorTypeArray then Ok StateStartArray
         else if mt = MajorTypeMap then Ok StateStartMap
         else if mt = MajorTypeTag then Ok StateTag
         else if mt = MajorTypeSimpleOrFloat then
           (if ai = SimpleValueFalse \<or> ai = SimpleValueTrue then Ok StateBoolean
            else if ai = SimpleValueNull then Ok StateNull
            else if ai = SimpleValueUndefined then Ok StateUndefinedValue
            else if ai = 24 then Ok StateSimpleValue
            else if ai = 25 then Ok StateHalfPrecisionFloat
            else if ai = 26 then Ok StateSinglePrecisionFloat
            else if ai = 27 then Ok StateDoublePrecisionFloat
            else if ai < 24 then Ok StateSimpleValue
            else Err ErrInvalidSimpleValue)
         else Err ErrInvalidMajorType)"

text \<open>
  The break-byte block of \<open>computeState\<close>, entered when the current byte is \<open>0xFF\<close>:
  \<open>Some\<close> is its \<open>return\<close>, \<open>None\<close> is falling out of the \<open>switch info.majorType\<close>
  into the classification of the initial byte.
\<close>

definition breakState :: "readerNestingInfo list \<Rightarrow> CborReaderState result option" where
  "breakState stack =
     (if length stack = 0 then Some (Err ErrUnexpectedBreak)
      else let info = stack ! (length stack - 1) in
        if \<not> rIsIndefinite info then Some (Err ErrUnexpectedBreak)
        else if rMajorType info = MajorTypeArray then Some (Ok StateEndArray)
        else if rMajorType info = MajorTypeMap then
          (if keyRead info then Some (Err ErrIncompleteContainer) else Some (Ok StateEndMap))
        else if rMajorType info = MajorTypeByteString
          then Some (Ok StateEndIndefiniteLengthByteString)
        else if rMajorType info = MajorTypeTextString
          then Some (Ok StateEndIndefiniteLengthTextString)
        else None)"

definition containerComplete :: "readerNestingInfo list \<Rightarrow> bool" where
  "containerComplete stack =
     (length stack > 0 \<and> \<not> rIsIndefinite (stack ! (length stack - 1))
      \<and> rDefiniteLength (stack ! (length stack - 1)) \<le>s itemsRead (stack ! (length stack - 1)))"

definition computeState :: "CborReader \<Rightarrow> CborReaderState result" where
  "computeState r =
     (if containerComplete (rNestingStack r) then
        (if rIsMap (rNestingStack r ! (length (rNestingStack r) - 1))
         then Ok StateEndMap else Ok StateEndArray)
      else if offset r \<ge> length (data r) then
        (if length (rNestingStack r) > 0 then Err ErrUnexpectedEndOfData else Ok StateFinished)
      else let initialByte = data r ! offset r in
        if initialByte = breakByte then
          (case breakState (rNestingStack r) of
             Some res \<Rightarrow> res
           | None \<Rightarrow> classifyInitialByte initialByte)
        else classifyInitialByte initialByte)"

definition PeekState :: "CborReader \<Rightarrow> CborReaderState result \<times> CborReader" where
  "PeekState r =
     (if stateComputed r then (Ok (cachedState r), r)
      else case computeState r of
             Ok state \<Rightarrow> (Ok state, r\<lparr>cachedState := state, stateComputed := True\<rparr>)
           | Err err \<Rightarrow> (Err err, r)
           | Panic \<Rightarrow> (Panic, r))"

definition readArgumentValue :: "CborReader \<Rightarrow> MajorType \<Rightarrow> uint64 result \<times> CborReader" where
  "readArgumentValue r mt =
     (if offset r \<ge> length (data r) then (Err ErrUnexpectedEndOfData, r)
      else let initialByte = data r ! offset r;
               actualMt = fst (decodeInitialByte initialByte);
               ai = snd (decodeInitialByte initialByte)
      in if actualMt \<noteq> mt then (Err (TypeMismatchError (uint mt) (uint actualMt)), r)
         else let r1 = r\<lparr>offset := offset r + 1\<rparr> in
           if ai < 24 then (Ok (ucast ai), r1)
           else if ai = 24 then
             (if offset r1 \<ge> length (data r1) then (Err ErrUnexpectedEndOfData, r1)
              else let val = data r1 ! offset r1; r2 = r1\<lparr>offset := offset r1 + 1\<rparr> in
                if rConformanceMode r2 \<ge> ConformanceStrict \<and> val < 24
                then (Err ErrNonCanonical, r2) else (Ok (ucast val), r2))
           else if ai = 25 then
             (if offset r1 + 2 > length (data r1) then (Err ErrUnexpectedEndOfData, r1)
              else let val = Uint16 (drop (offset r1) (data r1));
                       r2 = r1\<lparr>offset := offset r1 + 2\<rparr> in
                if rConformanceMode r2 \<ge> ConformanceStrict \<and> val \<le> 0xFF
                then (Err ErrNonCanonical, r2) else (Ok (ucast val), r2))
           else if ai = 26 then
             (if offset r1 + 4 > length (data r1) then (Err ErrUnexpectedEndOfData, r1)
              else let val = Uint32 (drop (offset r1) (data r1));
                       r2 = r1\<lparr>offset := offset r1 + 4\<rparr> in
                if rConformanceMode r2 \<ge> ConformanceStrict \<and> val \<le> 0xFFFF
                then (Err ErrNonCanonical, r2) else (Ok (ucast val), r2))
           else if ai = 27 then
             (if offset r1 + 8 > length (data r1) then (Err ErrUnexpectedEndOfData, r1)
              else let val = Uint64 (drop (offset r1) (data r1));
                       r2 = r1\<lparr>offset := offset r1 + 8\<rparr> in
                if rConformanceMode r2 \<ge> ConformanceStrict \<and> val \<le> 0xFFFFFFFF
                then (Err ErrNonCanonical, r2) else (Ok val, r2))
           else if ai = 31 then (Ok 0, r1)
           else (Err ErrInvalidCbor, r1))"

definition readerAdvanceFrame :: "readerNestingInfo \<Rightarrow> readerNestingInfo" where
  "readerAdvanceFrame info =
     (if rIsMap info then
        (if keyRead info
         then info\<lparr>keyRead := False, itemsRead := itemsRead info + 1\<rparr>
         else info\<lparr>keyRead := True\<rparr>)
      else info\<lparr>itemsRead := itemsRead info + 1\<rparr>)"

text \<open>The reader's \<open>advanceContainer\<close>.\<close>

definition readerAdvanceContainer :: "CborReader \<Rightarrow> CborReader" where
  "readerAdvanceContainer r =
     (if length (rNestingStack r) = 0 then r
      else invalidateState
        (r\<lparr>rNestingStack :=
             (rNestingStack r)[length (rNestingStack r) - 1 :=
                readerAdvanceFrame (rNestingStack r ! (length (rNestingStack r) - 1))]\<rparr>))"

definition ReadUint64 :: "CborReader \<Rightarrow> uint64 result \<times> CborReader" where
  "ReadUint64 r =
     (case PeekState r of
        (Err err, r1) \<Rightarrow> (Err err, r1)
      | (Panic, r1) \<Rightarrow> (Panic, r1)
      | (Ok state, r1) \<Rightarrow>
          if state \<noteq> StateUnsignedInteger
          then (Err (TypeMismatchError StateUnsignedInteger state), r1)
          else (case readArgumentValue (invalidateState r1) MajorTypeUnsignedInteger of
                  (Err err, r2) \<Rightarrow> (Err err, r2)
                | (Panic, r2) \<Rightarrow> (Panic, r2)
                | (Ok val, r2) \<Rightarrow> (Ok val, readerAdvanceContainer r2)))"

definition ReadInt64 :: "CborReader \<Rightarrow> int64 result \<times> CborReader" where
  "ReadInt64 r =
     (case PeekState r of
        (Err err, r1) \<Rightarrow> (Err err, r1)
      | (Panic, r1) \<Rightarrow> (Panic, r1)
      | (Ok state, r1) \<Rightarrow>
          if state = StateUnsignedInteger then
            (case readArgumentValue (invalidateState r1) MajorTypeUnsignedInteger of
               (Err err, r2) \<Rightarrow> (Err err, r2)
             | (Panic, r2) \<Rightarrow> (Panic, r2)
             | (Ok val, r2) \<Rightarrow>
                 if val > 0x7FFFFFFFFFFFFFFF then (Err ErrOverflow, r2)
                 else (Ok val, readerAdvanceContainer r2))
          else if state = StateNegativeInteger then
            (case readArgumentValue (invalidateState r1) MajorTypeNegativeInteger of
               (Err err, r2) \<Rightarrow> (Err err, r2)
             | (Panic, r2) \<Rightarrow> (Panic, r2)
             | (Ok val, r2) \<Rightarrow>
                 if val > 0x7FFFFFFFFFFFFFFF then (Err ErrOverflow, r2)
                 else (Ok (- 1 - val), readerAdvanceContainer r2))
          else (Err (TypeMismatchError StateUnsignedInteger state), invalidateState r1))"


definition ReadTag :: "CborReader \<Rightarrow> CborTag result \<times> CborReader" where
  "ReadTag r =
     (case PeekState r of
        (Err err, r1) \<Rightarrow> (Err err, r1)
      | (Panic, r1) \<Rightarrow> (Panic, r1)
      | (Ok state, r1) \<Rightarrow>
          if state \<noteq> StateTag then (Err (TypeMismatchError StateTag state), r1)
          else readArgumentValue (invalidateState r1) MajorTypeTag)"

text \<open>
  Go's \<open>int\<close> is taken as 64 bits wide. \<open>intOfUint64\<close> is the conversion \<open>int(length)\<close> of
  a \<open>uint64\<close>, \<open>intAdd\<close> is \<open>+\<close> on \<open>int\<close>, which wraps around. \<open>sliceData d lo hi\<close> is
  the slice expression \<open>d[lo:hi]\<close>: \<open>None\<close> is the run-time panic "slice bounds out of
  range" (the capacity of the input slice is taken to be its length).
\<close>

definition intOfUint64 :: "uint64 \<Rightarrow> int" where
  "intOfUint64 x = sint x"

definition intAdd :: "int \<Rightarrow> int \<Rightarrow> int" where
  "intAdd a b = sint (word_of_int (a + b) :: 64 word)"

definition sliceData :: "byte list \<Rightarrow> int \<Rightarrow> int \<Rightarrow> byte list option" where
  "sliceData d lo hi =
     (if 0 \<le> lo \<and> lo \<le> hi \<and> hi \<le> int (length d)
      then Some (take (nat hi - nat lo) (drop (nat lo) d)) else None)"

text \<open>
  The loop of \<open>readIndefiniteByteString\<close>, with the bytes collected so far. Every pass
  that does not return moves the offset forward, by the initial byte of the chunk at least.
\<close>

function readChunks :: "CborReader \<Rightarrow> byte list \<Rightarrow> byte list result \<times> CborReader" where
  "readChunks r acc =
     (if offset r \<ge> length (data r) then (Err ErrUnexpectedEndOfData, r)
      else if data r ! offset r = breakByte then (Ok acc, r\<lparr>offset := offset r + 1\<rparr>)
      else if fst (decodeInitialByte (data r ! offset r)) \<noteq> MajorTypeByteString
        then (Err ErrInvalidCbor, r)
      else (case readArgumentValue r MajorTypeByteString of
              (Err err, r1) \<Rightarrow> (Err err, r1)
            | (Panic, r1) \<Rightarrow> (Panic, r1)
            | (Ok len, r1) \<Rightarrow>
                if intAdd (int (offset r1)) (intOfUint64 len) > int (length (data r1))
                then (Err ErrUnexpectedEndOfData, r1)
                else (case sliceData (data r1) (int (offset r1))
                             (intAdd (int (offset r1)) (intOfUint64 len)) of
                        None \<Rightarrow> (Panic, r1)
                      | Some chunk \<Rightarrow>
                          readChunks
                            (r1\<lparr>offset := nat (intAdd (int (offset r1)) (intOfUint64 len))\<rparr>)
                            (acc @ chunk))))"
  by pat_completeness auto
termination
  apply (relation "measure (\<lambda>(r, acc). length (data r) - offset r)")
   apply simp
  apply (auto simp: sliceData_def readArgumentValue_def Let_def split: if_splits)
  done

definition readIndefiniteByteString :: "CborReader \<Rightarrow> byte list result \<times> CborReader" where
  "readIndefiniteByteString r =
     (if rConformanceMode r \<ge> ConformanceCanonical
      then (Err ErrIndefiniteLengthNotAllowed, r)
      else (case readChunks (invalidateState (r\<lparr>offset := offset r + 1\<rparr>)) [] of
              (Err err, r1) \<Rightarrow> (Err err, r1)
            | (Panic, r1) \<Rightarrow> (Panic, r1)
            | (Ok res, r1) \<Rightarrow> (Ok res, readerAdvanceContainer r1)))"

text \<open>
  In \<open>ReadByteString\<close> the bounds test is \<open>r.offset+int(length) > len(r.data)\<close>. When it
  lets a length through, \<open>make([]byte, length)\<close> panics for a length that is negative as
  an \<open>int\<close>, and the allocation or the slice expression \<open>r.data[r.offset:r.offset+int(length)]\<close>
  panics when the sum has wrapped around below the offset.
\<close>

definition ReadByteString :: "CborReader \<Rightarrow> byte list result \<times> CborReader" where
  "ReadByteString r =
     (case PeekState r of
        (Err err, r1) \<Rightarrow> (Err err, r1)
      | (Panic, r1) \<Rightarrow> (Panic, r1)
      | (Ok state, r1) \<Rightarrow>
          if state = StateStartIndefiniteLengthByteString then readIndefiniteByteString r1
          else if state \<noteq> StateByteString
            then (Err (TypeMismatchError StateByteString state), r1)
          else (case readArgumentValue (invalidateState r1) MajorTypeByteString of
                  (Err err, r2) \<Rightarrow> (Err err, r2)
                | (Panic, r2) \<Rightarrow> (Panic, r2)
                | (Ok len, r2) \<Rightarrow>
                    if intAdd (int (offset r2)) (intOfUint64 len) > int (length (data r2))
                    then (Err ErrUnexpectedEndOfData, r2)
                    else if intOfUint64 len < 0 then (Panic, r2)
                    else (case sliceData (data r2) (int (offset r2))
                                 (intAdd (int (offset r2)) (intOfUint64 len)) of
                            None \<Rightarrow> (Panic, r2)
                          | Some res \<Rightarrow>
                              (Ok res, readerAdvanceContainer
                                 (r2\<lparr>offset :=
                                       nat (intAdd (int (offset r2)) (intOfUint64 len))\<rparr>)))))"

text \<open>\<open>big.Int.SetBytes\<close>: the bytes as a big-endian unsigned integer.\<close>

definition SetBytes :: "byte list \<Rightarrow> int" where
  "SetBytes bs = foldl (\<lambda>acc b. acc * 256 + uint b) 0 bs"

definition ReadBigInt :: "CborReader \<Rightarrow> int result \<times> CborReader" where
  "ReadBigInt r =
     (case PeekState r of
        (Err err, r1) \<Rightarrow> (Err err, r1)
      | (Panic, r1) \<Rightarrow> (Panic, r1)
      | (Ok state, r1) \<Rightarrow>
          if state = StateUnsignedInteger then
            (case ReadUint64 r1 of
               (Err err, r2) \<Rightarrow> (Err err, r2)
             | (Panic, r2) \<Rightarrow> (Panic, r2)
             | (Ok val, r2) \<Rightarrow> (Ok (uint val), r2))
          else if state = StateNegativeInteger then
            (case ReadInt64 r1 of
               (Panic, r2) \<Rightarrow> (Panic, r2)
             | (Ok val, r2) \<Rightarrow> (Ok (sint val), r2)
             | (Err err, r2) \<Rightarrow>
                 (case readArgumentValue
                         (invalidateState
                            (r2\<lparr>stateComputed := True, cachedState := StateNegativeInteger\<rparr>))
                         MajorTypeNegativeInteger of
                    (Err err2, r3) \<Rightarrow> (Err err2, r3)
                  | (Panic, r3) \<Rightarrow> (Panic, r3)
                  | (Ok raw, r3) \<Rightarrow> (Ok (- (uint raw + 1)), readerAdvanceContainer r3)))
          else if state = StateTag then
            (case ReadTag r1 of
               (Err err, r2) \<Rightarrow> (Err err, r2)
             | (Panic, r2) \<Rightarrow> (Panic, r2)
             | (Ok tag, r2) \<Rightarrow>
                 if tag = TagUnsignedBignum then
                   (case ReadByteString r2 of
                      (Err err, r3) \<Rightarrow> (Err err, r3)
                    | (Panic, r3) \<Rightarrow> (Panic, r3)
                    | (Ok bs, r3) \<Rightarrow> (Ok (SetBytes bs), r3))
                 else if tag = TagNegativeBignum then
                   (case ReadByteString r2 of
                      (Err err, r3) \<Rightarrow> (Err err, r3)
                    | (Panic, r3) \<Rightarrow> (Panic, r3)
                    | (Ok bs, r3) \<Rightarrow> (Ok (- (SetBytes bs + 1)), r3))
                 else (Err (TypeMismatchError StateUnsignedInteger StateTag), r2))
          else (Err (TypeMismatchError StateUnsignedInteger state), r1))"

text \<open>
  \<open>ReadStartArray\<close> and \<open>ReadStartMap\<close> index \<open>r.data[r.offset]\<close> after the classification;
  out of range that is a run-time panic.
\<close>

definition ReadStartArray :: "CborReader \<Rightarrow> int result \<times> CborReader" where
  "ReadStartArray r =
     (case PeekState r of
        (Err err, r1) \<Rightarrow> (Err err, r1)
      | (Panic, r1) \<Rightarrow> (Panic, r1)
      | (Ok state, r1) \<Rightarrow>
          if state \<noteq> StateStartArray then (Err (TypeMismatchError StateStartArray state), r1)
          else if int (length (rNestingStack r1)) \<ge> rMaxNestingDepth r1
            then (Err ErrNestingDepthExceeded, r1)
          else let r2 = invalidateState r1 in
            if offset r2 \<ge> length (data r2) then (Panic, r2)
            else if data r2 ! offset r2
                    = encodeInitialByte MajorTypeArray AdditionalInfoIndefiniteLength then
              (if rConformanceMode r2 \<ge> ConformanceCanonical
               then (Err ErrIndefiniteLengthNotAllowed, r2)
               else (Ok (- 1),
                     r2\<lparr>offset := offset r2 + 1,
                        rNestingStack := rNestingStack r2 @
                          [\<lparr>rMajorType = MajorTypeArray, rDefiniteLength = - 1, itemsRead = 0,
                            rIsMap = False, keyRead = False, rIsIndefinite = True\<rparr>]\<rparr>))
            else (case readArgumentValue r2 MajorTypeArray of
                    (Err err, r3) \<Rightarrow> (Err err, r3)
                  | (Panic, r3) \<Rightarrow> (Panic, r3)
                  | (Ok len, r3) \<Rightarrow>
                      (Ok (intOfUint64 len),
                       r3\<lparr>rNestingStack := rNestingStack r3 @
                            [\<lparr>rMajorType = MajorTypeArray, rDefiniteLength = len,
                              itemsRead = 0, rIsMap = False, keyRead = False,
                              rIsIndefinite = False\<rparr>]\<rparr>)))"

definition ReadStartMap :: "CborReader \<Rightarrow> int result \<times> CborReader" where
  "ReadStartMap r =
     (case PeekState r of
        (Err err, r1) \<Rightarrow> (Err err, r1)
      | (Panic, r1) \<Rightarrow> (Panic, r1)
      | (Ok state, r1) \<Rightarrow>
          if state \<noteq> StateStartMap then (Err (TypeMismatchError StateStartMap state), r1)
          else if int (length (rNestingStack r1)) \<ge> rMaxNestingDepth r1
            then (Err ErrNestingDepthExceeded, r1)
          else let r2 = invalidateState r1 in
            if offset r2 \<ge> length (data r2) then (Panic, r2)
            else if data r2 ! offset r2
                    = encodeInitialByte MajorTypeMap AdditionalInfoIndefiniteLength then
              (if rConformanceMode r2 \<ge> ConformanceCanonical
               then (Err ErrIndefiniteLengthNotAllowed, r2)
               else (Ok (- 1),
                     r2\<lparr>offset := offset r2 + 1,
                        rNestingStack := rNestingStack r2 @
                          [\<lparr>rMajorType = MajorTypeMap, rDefiniteLength = - 1, itemsRead = 0,
                            rIsMap = True, keyRead = False, rIsIndefinite = True\<rparr>]\<rparr>))
            else (case readArgumentValue r2 MajorTypeMap of
                    (Err err, r3) \<Rightarrow> (Err err, r3)
                  | (Panic, r3) \<Rightarrow> (Panic, r3)
                  | (Ok len, r3) \<Rightarrow>
                      (Ok (intOfUint64 len),
                       r3\<lparr>rNestingStack := rNestingStack r3 @
                            [\<lparr>rMajorType = MajorTypeMap, rDefiniteLength = len,
                              itemsRead = 0, rIsMap = True, keyRead = False,
                              rIsIndefinite = False\<rparr>]\<rparr>)))"

text \<open>
  \<open>ReadFloat16\<close> returns the bit pattern of the \<open>float32\<close>; the outer \<open>option\<close> is the
  one of \<open>float16BitsToFloat32\<close>.
\<close>

definition ReadFloat16 :: "CborReader \<Rightarrow> (uint32 result \<times> CborReader) option" where
  "ReadFloat16 r =
     (case PeekState r of
        (Err err, r1) \<Rightarrow> Some (Err err, r1)
      | (Panic, r1) \<Rightarrow> Some (Panic, r1)
      | (Ok state, r1) \<Rightarrow>
          if state \<noteq> StateHalfPrecisionFloat
          then Some (Err (TypeMismatchError StateHalfPrecisionFloat state), r1)
          else let r2 = (invalidateState r1)\<lparr>offset := offset r1 + 1\<rparr> in
            if offset r2 + 2 > length (data r2) then Some (Err ErrUnexpectedEndOfData, r2)
            else let bits = Uint16 (drop (offset r2) (data r2));
                     r3 = readerAdvanceContainer (r2\<lparr>offset := offset r2 + 2\<rparr>)
                 in (case float16BitsToFloat32 bits of
                       None \<Rightarrow> None
                     | Some f \<Rightarrow> Some (Ok f, r3)))"


section \<open>Notions used to state the properties\<close>

text \<open>
  The argument encoding in the words of the specification: the initial byte carries the
  major type in its high three bits; a value below 24 is the additional information
  itself, otherwise additional information 24, 25, 26 or 27 announces the value in 1, 2,
  4 or 8 bytes, the smallest width that holds it, most significant byte first.
\<close>

fun be_bytes :: "nat \<Rightarrow> nat \<Rightarrow> nat list" where
  "be_bytes 0 v = []"
| "be_bytes (Suc k) v = (v div 256 ^ k) mod 256 # be_bytes k v"

definition spec_writeArgument :: "nat \<Rightarrow> nat \<Rightarrow> nat list" where
  "spec_writeArgument mt v =
     (if v < 24 then [mt * 32 + v]
      else if v \<le> 0xFF then (mt * 32 + 24) # be_bytes 1 v
      else if v \<le> 0xFFFF then (mt * 32 + 25) # be_bytes 2 v
      else if v \<le> 0xFFFFFFFF then (mt * 32 + 26) # be_bytes 4 v
      else (mt * 32 + 27) # be_bytes 8 v)"

text \<open>The bytes \<open>writeMinimalInitialByte\<close> appends for a major type and a value.\<close>

definition argBytes :: "MajorType \<Rightarrow> uint64 \<Rightarrow> byte list" where
  "argBytes mt v = buffer (writeMinimalInitialByte NewCborWriter mt v)"

text \<open>The innermost frame of the writer and of the reader.\<close>

definition topFrame :: "CborWriter \<Rightarrow> nestingInfo" where
  "topFrame w = nestingStack w ! (length (nestingStack w) - 1)"

definition readerTopFrame :: "CborReader \<Rightarrow> readerNestingInfo" where
  "readerTopFrame r = rNestingStack r ! (length (rNestingStack r) - 1)"

text \<open>
  The cached classification, when there is one, is the classification of the current
  position: every consuming read clears the flag, and \<open>PeekState\<close> sets it to what
  \<open>computeState\<close> returned.
\<close>

definition cacheConsistent :: "CborReader \<Rightarrow> bool" where
  "cacheConsistent r =
     (if stateComputed r then computeState r = Ok (cachedState r) else True)"




text \<open>
  \<open>n\<close> consecutive calls of \<open>WriteStartArray(1)\<close>, and of \<open>ReadStartArray\<close>, with the
  error or result of each call in order.
\<close>

fun writeStartArrays :: "nat \<Rightarrow> CborWriter \<Rightarrow> cbor_error option list \<times> CborWriter" where
  "writeStartArrays 0 w = ([], w)"
| "writeStartArrays (Suc n) w =
     (case WriteStartArray 1 w of
        (e, w1) \<Rightarrow> (case writeStartArrays n w1 of (es, w2) \<Rightarrow> (e # es, w2)))"

fun readStartArrays :: "nat \<Rightarrow> CborReader \<Rightarrow> int result list \<times> CborReader" where
  "readStartArrays 0 r = ([], r)"
| "readStartArrays (Suc n) r =
     (case ReadStartArray r of
        (e, r1) \<Rightarrow> (case readStartArrays n r1 of (es, r2) \<Rightarrow> (e # es, r2)))"

section \<open>Byte-level facts\<close>

lemmas unat_bytes =
  unsigned_ucast_eq unat_drop_bit_eq take_bit_eq_mod drop_bit_eq_div
  unat_div_distrib unat_mod_distrib

lemma mask5_numeral: "(0x1F::8 word) = mask 5"
  by (simp add: mask_eq_exp_minus_1)

lemma unat_and_1F: "unat ((ai::8 word) AND 0x1F) = unat ai mod 32"
  unfolding mask5_numeral by (simp add: unat_bytes flip: take_bit_eq_mask)

lemma encodeInitialByte_add: "encodeInitialByte mt ai = push_bit 5 mt + (ai AND 0x1F)"
  unfolding encodeInitialByte_def mask5_numeral
  by (rule disjunctive_add[symmetric]) (auto simp: bit_simps)

lemma unat_encodeInitialByte:
  "mt \<le> 7 \<Longrightarrow> unat (encodeInitialByte mt ai) = unat mt * 32 + unat ai mod 32"
  unfolding encodeInitialByte_add
  by (simp add: unat_word_ariths unat_and_1F unsigned_push_bit_eq push_bit_eq_mult
      take_bit_eq_mod word_le_nat_alt)

lemma be_bytes_1: "be_bytes 1 v = [v mod 256]"
  by simp

lemma be_bytes_2: "be_bytes 2 v = [v div 256 mod 256, v mod 256]"
proof -
  have e: "be_bytes 2 v = be_bytes (Suc (Suc 0)) v"
    by (rule arg_cong[of _ _ "\<lambda>k. be_bytes k v"]) simp
  show ?thesis unfolding e be_bytes.simps by simp
qed

lemma be_bytes_4:
  "be_bytes 4 v = [v div 256 ^ 3 mod 256, v div 256 ^ 2 mod 256, v div 256 mod 256, v mod 256]"
proof -
  have e: "be_bytes 4 v = be_bytes (Suc (Suc (Suc (Suc 0)))) v"
    by (rule arg_cong[of _ _ "\<lambda>k. be_bytes k v"]) simp
  show ?thesis unfolding e be_bytes.simps by simp
qed

lemma be_bytes_8:
  "be_bytes 8 v =
     [v div 256 ^ 7 mod 256, v div 256 ^ 6 mod 256, v div 256 ^ 5 mod 256,
      v div 256 ^ 4 mod 256, v div 256 ^ 3 mod 256, v div 256 ^ 2 mod 256,
      v div 256 mod 256, v mod 256]"
proof -
  have e: "be_bytes 8 v = be_bytes (Suc (Suc (Suc (Suc (Suc (Suc (Suc (Suc 0)))))))) v"
    by (rule arg_cong[of _ _ "\<lambda>k. be_bytes k v"]) simp
  show ?thesis unfolding e be_bytes.simps by simp
qed

lemma buffer_writeMinimalInitialByte:
  "buffer (writeMinimalInitialByte w mt v) = buffer w @ argBytes mt v"
  by (simp add: writeMinimalInitialByte_def argBytes_def NewCborWriter_def Let_def
      AppendUint16_def AppendUint32_def AppendUint64_def)

lemma width_cases:
  fixes v :: uint64
  obtains (imm) "v < 24"
  | (w1) "\<not> v < 24" "v \<le> 0xFF"
  | (w2) "\<not> v < 24" "\<not> v \<le> 0xFF" "v \<le> 0xFFFF"
  | (w4) "\<not> v < 24" "\<not> v \<le> 0xFF" "\<not> v \<le> 0xFFFF" "v \<le> 0xFFFFFFFF"
  | (w8) "\<not> v < 24" "\<not> v \<le> 0xFF" "\<not> v \<le> 0xFFFF" "\<not> v \<le> 0xFFFFFFFF"
  by blast

lemma unat_argBytes:
  assumes "mt \<le> 7"
  shows "map unat (argBytes mt v) = spec_writeArgument (unat mt) (unat v)"
proof (cases v rule: width_cases)
  case imm
  then show ?thesis using assms
    by (simp add: argBytes_def NewCborWriter_def writeMinimalInitialByte_def spec_writeArgument_def
        unat_encodeInitialByte word_less_nat_alt unat_bytes)
next
  case w1
  then show ?thesis using assms
    by (simp add: argBytes_def NewCborWriter_def writeMinimalInitialByte_def spec_writeArgument_def
        unat_encodeInitialByte word_less_nat_alt word_le_nat_alt unat_bytes)
next
  case w2
  then show ?thesis using assms
    by (simp add: argBytes_def NewCborWriter_def writeMinimalInitialByte_def spec_writeArgument_def
        unat_encodeInitialByte word_less_nat_alt word_le_nat_alt unat_bytes AppendUint16_def
        be_bytes_2)
next
  case w4
  then show ?thesis using assms
    by (simp add: argBytes_def NewCborWriter_def writeMinimalInitialByte_def spec_writeArgument_def
        unat_encodeInitialByte word_less_nat_alt word_le_nat_alt unat_bytes AppendUint32_def
        be_bytes_4)
next
  case w8
  then show ?thesis using assms
    by (simp add: argBytes_def NewCborWriter_def writeMinimalInitialByte_def spec_writeArgument_def
        unat_encodeInitialByte word_less_nat_alt word_le_nat_alt unat_bytes AppendUint64_def
        be_bytes_8)
qed

lemma decode_encodeInitialByte:
  assumes "mt \<le> 7" "ai < 32"
  shows "decodeInitialByte (encodeInitialByte mt ai) = (mt, ai)"
proof -
  have u: "unat (encodeInitialByte mt ai) = unat mt * 32 + unat ai"
    using assms by (simp add: unat_encodeInitialByte word_less_nat_alt)
  have "unat (drop_bit 5 (encodeInitialByte mt ai)) = unat (encodeInitialByte mt ai) div 32"
    by (simp add: unat_bytes)
  then have "unat (drop_bit 5 (encodeInitialByte mt ai)) = unat mt"
    using assms by (simp add: u word_less_nat_alt)
  moreover have "unat (encodeInitialByte mt ai AND 0x1F) = unat ai"
    using assms by (simp add: unat_and_1F u word_less_nat_alt)
  ultimately show ?thesis
    by (simp add: decodeInitialByte_def word_unat_eq_iff)
qed

lemma Uint16_bytes: "Uint16 (ucast (drop_bit 8 v) # ucast v # rest) = v"
  unfolding Uint16_def
  by (rule bit_word_eqI) (auto simp: bit_simps)

lemma be32_join:
  fixes v :: uint32
  shows "(ucast (ucast v :: byte) :: uint32)
         OR push_bit 8 (ucast (ucast (drop_bit 8 v) :: byte))
         OR push_bit 16 (ucast (ucast (drop_bit 16 v) :: byte))
         OR push_bit 24 (ucast (ucast (drop_bit 24 v) :: byte)) = v" (is "?l = v")
proof (rule bit_word_eqI)
  fix n :: nat
  assume "n < LENGTH(32)"
  then consider "n < 8" | "8 \<le> n" "n < 16" | "16 \<le> n" "n < 24" | "24 \<le> n" "n < 32"
    by fastforce
  then show "bit ?l n = bit v n"
    by cases (auto simp: bit_simps)
qed

lemma Uint32_bytes:
  "Uint32 (ucast (drop_bit 24 v) # ucast (drop_bit 16 v) # ucast (drop_bit 8 v) # ucast v # rest) = v"
  by (simp add: Uint32_def be32_join)

lemma be64_join:
  fixes v :: uint64
  shows "(ucast (ucast v :: byte) :: uint64)
         OR push_bit 8 (ucast (ucast (drop_bit 8 v) :: byte))
         OR push_bit 16 (ucast (ucast (drop_bit 16 v) :: byte))
         OR push_bit 24 (ucast (ucast (drop_bit 24 v) :: byte))
         OR push_bit 32 (ucast (ucast (drop_bit 32 v) :: byte))
         OR push_bit 40 (ucast (ucast (drop_bit 40 v) :: byte))
         OR push_bit 48 (ucast (ucast (drop_bit 48 v) :: byte))
         OR push_bit 56 (ucast (ucast (drop_bit 56 v) :: byte)) = v" (is "?l = v")
proof (rule bit_word_eqI)
  fix n :: nat
  assume "n < LENGTH(64)"
  then consider "n < 8" | "8 \<le> n" "n < 16" | "16 \<le> n" "n < 24" | "24 \<le> n" "n < 32"
    | "32 \<le> n" "n < 40" | "40 \<le> n" "n < 48" | "48 \<le> n" "n < 56" | "56 \<le> n" "n < 64"
    by fastforce
  then show "bit ?l n = bit v n"
    by cases (auto simp: bit_simps)
qed

lemma Uint64_bytes:
  "Uint64 (ucast (drop_bit 56 v) # ucast (drop_bit 48 v) # ucast (drop_bit 40 v)
            # ucast (drop_bit 32 v) # ucast (drop_bit 24 v) # ucast (drop_bit 16 v)
            # ucast (drop_bit 8 v) # ucast v # rest) = v"
  by (simp add: Uint64_def be64_join)

section \<open>End of a container on the writer\<close>

lemma WriteEndArray_error_unchanged:
  "fst (WriteEndArray w) \<noteq> None \<Longrightarrow> snd (WriteEndArray w) = w"
  by (simp add: WriteEndArray_def Let_def split: if_splits)

lemma WriteEndMap_error_unchanged:
  "fst (WriteEndMap w) \<noteq> None \<Longrightarrow> snd (WriteEndMap w) = w"
  by (simp add: WriteEndMap_def Let_def split: if_splits)

lemma WriteEndArray_errors:
  "(fst (WriteEndArray w) = Some ErrInvalidState
      \<longleftrightarrow> nestingStack w = [] \<or> majorType (topFrame w) \<noteq> MajorTypeArray)
   \<and> (fst (WriteEndArray w) = Some ErrIncompleteContainer
      \<longleftrightarrow> nestingStack w \<noteq> [] \<and> majorType (topFrame w) = MajorTypeArray
          \<and> \<not> isIndefinite (topFrame w)
          \<and> itemsWritten (topFrame w) <s definiteLength (topFrame w))
   \<and> (fst (WriteEndArray w) = Some ErrExtraItems
      \<longleftrightarrow> nestingStack w \<noteq> [] \<and> majorType (topFrame w) = MajorTypeArray
          \<and> \<not> isIndefinite (topFrame w)
          \<and> definiteLength (topFrame w) <s itemsWritten (topFrame w))"
  by (auto simp: WriteEndArray_def Let_def topFrame_def signed.not_less signed.le_less split: if_splits)

lemma WriteEndMap_errors:
  "(fst (WriteEndMap w) = Some ErrInvalidState
      \<longleftrightarrow> nestingStack w = [] \<or> majorType (topFrame w) \<noteq> MajorTypeMap)
   \<and> (fst (WriteEndMap w) = Some ErrIncompleteContainer
      \<longleftrightarrow> nestingStack w \<noteq> [] \<and> majorType (topFrame w) = MajorTypeMap
          \<and> (keyWritten (topFrame w)
               \<or> \<not> isIndefinite (topFrame w)
                 \<and> itemsWritten (topFrame w) <s definiteLength (topFrame w)))
   \<and> (fst (WriteEndMap w) = Some ErrExtraItems
      \<longleftrightarrow> nestingStack w \<noteq> [] \<and> majorType (topFrame w) = MajorTypeMap
          \<and> \<not> keyWritten (topFrame w) \<and> \<not> isIndefinite (topFrame w)
          \<and> definiteLength (topFrame w) <s itemsWritten (topFrame w))"
  by (auto simp: WriteEndMap_def Let_def topFrame_def signed.not_less signed.le_less split: if_splits)

lemma WriteEnd_error_kinds:
  "fst (WriteEndArray w) \<in> {None, Some ErrInvalidState, Some ErrIncompleteContainer, Some ErrExtraItems}"
  "fst (WriteEndMap w) \<in> {None, Some ErrInvalidState, Some ErrIncompleteContainer, Some ErrExtraItems}"
  by (simp_all add: WriteEndArray_def WriteEndMap_def Let_def)

section \<open>The encoder always writes the minimal argument width\<close>

text \<open>
  Claim C2. For every major type (0 to 7), every argument value and every conformance mode
  of the writer, \<open>writeMinimalInitialByte\<close> keeps the bytes already in the buffer and
  appends exactly the specification's minimal argument encoding: the value itself in the
  initial byte below 24, otherwise one byte up to \<open>0xFF\<close>, two up to \<open>0xFFFF\<close>, four up to
  \<open>0xFFFFFFFF\<close> and eight beyond, most significant byte first.
\<close>

theorem writeMinimalInitialByte_minimal_width:
  assumes "mt \<le> 7"
  shows "take (length (buffer w))
           (buffer (writeMinimalInitialByte (WithConformanceMode mode w) mt v)) = buffer w
       \<and> map unat (drop (length (buffer w))
           (buffer (writeMinimalInitialByte (WithConformanceMode mode w) mt v)))
         = spec_writeArgument (unat mt) (unat v)"
  using unat_argBytes [OF assms, of v]
  by (simp add: buffer_writeMinimalInitialByte WithConformanceMode_def)

theorem writeMinimalInitialByte_minimal_width_witness:
  "(4::MajorType) \<le> 7
   \<and> map unat (drop (length (buffer NewCborWriter))
        (buffer (writeMinimalInitialByte (WithConformanceMode ConformanceLax NewCborWriter) 4 1000)))
     = [4 * 32 + 25, 3, 232]"
proof -
  have h: "(4::MajorType) \<le> 7" by simp
  show ?thesis
    using h writeMinimalInitialByte_minimal_width [OF h, of NewCborWriter ConformanceLax 1000]
    by (simp add: spec_writeArgument_def be_bytes_2)
qed

section \<open>Decoding what the writer encoded\<close>

lemma drop_eq_ConsD:
  assumes "drop n xs = y # ys"
  shows "n < length xs" and "xs ! n = y" and "drop (Suc n) xs = ys"
proof -
  show "n < length xs"
    using assms by (metis drop_all list.distinct(1) not_le)
  then show "xs ! n = y"
    using assms by (metis Cons_nth_drop_Suc list.inject)
  show "drop (Suc n) xs = ys"
    using assms by (metis drop_Suc tl_drop list.sel(3))
qed

lemma drop_eq_append_length:
  assumes "drop n xs = ys @ zs" "ys \<noteq> []"
  shows "n + length ys \<le> length xs"
proof -
  have "length xs - n = length ys + length zs"
    using assms by (metis length_append length_drop)
  moreover have "0 < length ys" using assms by simp
  ultimately show ?thesis by arith
qed

lemma ucast_down_up_16:
  fixes v :: uint64
  assumes "v \<le> 0xFFFF"
  shows "(ucast (ucast v :: uint16) :: uint64) = v"
  using assms by (simp add: word_unat_eq_iff unat_bytes word_le_nat_alt)

lemma ucast_down_up_32:
  fixes v :: uint64
  assumes "v \<le> 0xFFFFFFFF"
  shows "(ucast (ucast v :: uint32) :: uint64) = v"
  using assms by (simp add: word_unat_eq_iff unat_bytes word_le_nat_alt)

lemma ucast_down_up_8:
  fixes v :: uint64
  assumes "v \<le> 0xFF"
  shows "(ucast (ucast v :: byte) :: uint64) = v"
  using assms by (simp add: word_unat_eq_iff unat_bytes word_le_nat_alt)

lemma ucast8_less:
  fixes v :: uint64
  assumes "v \<le> 0xFF"
  shows "((ucast v :: byte) < 24) = (v < 24)"
  using assms by (simp add: unat_bytes word_le_nat_alt word_less_nat_alt)

lemma ucast16_le:
  fixes v :: uint64
  assumes "v \<le> 0xFFFF"
  shows "((ucast v :: uint16) \<le> 0xFF) = (v \<le> 0xFF)"
  using assms by (simp add: unat_bytes word_le_nat_alt word_less_nat_alt)

lemma ucast32_le:
  fixes v :: uint64
  assumes "v \<le> 0xFFFFFFFF"
  shows "((ucast v :: uint32) \<le> 0xFFFF) = (v \<le> 0xFFFF)"
  using assms by (simp add: unat_bytes word_le_nat_alt word_less_nat_alt)

lemma ucast8_lt_32:
  fixes v :: uint64
  assumes "v < 24"
  shows "(ucast v :: byte) < 24"
  using assms by (simp add: unat_bytes word_le_nat_alt word_less_nat_alt)

lemma argBytes_imm: "v < 24 \<Longrightarrow> argBytes mt v = [encodeInitialByte mt (ucast v)]"
  by (simp add: argBytes_def NewCborWriter_def writeMinimalInitialByte_def)

lemma argBytes_w1:
  "\<not> v < 24 \<Longrightarrow> v \<le> 0xFF \<Longrightarrow> argBytes mt v = [encodeInitialByte mt 24, ucast v]"
  by (simp add: argBytes_def NewCborWriter_def writeMinimalInitialByte_def)

lemma argBytes_w2:
  "\<not> v \<le> 0xFF \<Longrightarrow> v \<le> 0xFFFF \<Longrightarrow>
   argBytes mt v = [encodeInitialByte mt 25, ucast (drop_bit 8 (ucast v :: uint16)),
                    ucast (ucast v :: uint16)]"
  by (auto simp: argBytes_def NewCborWriter_def writeMinimalInitialByte_def AppendUint16_def
      word_le_nat_alt word_less_nat_alt)

lemma argBytes_w4:
  "\<not> v \<le> 0xFFFF \<Longrightarrow> v \<le> 0xFFFFFFFF \<Longrightarrow>
   argBytes mt v = [encodeInitialByte mt 26, ucast (drop_bit 24 (ucast v :: uint32)),
                    ucast (drop_bit 16 (ucast v :: uint32)),
                    ucast (drop_bit 8 (ucast v :: uint32)), ucast (ucast v :: uint32)]"
  by (auto simp: argBytes_def NewCborWriter_def writeMinimalInitialByte_def AppendUint32_def
      word_le_nat_alt word_less_nat_alt)

lemma argBytes_w8:
  "\<not> v \<le> 0xFFFFFFFF \<Longrightarrow>
   argBytes mt v = [encodeInitialByte mt 27, ucast (drop_bit 56 v), ucast (drop_bit 48 v),
                    ucast (drop_bit 40 v), ucast (drop_bit 32 v), ucast (drop_bit 24 v),
                    ucast (drop_bit 16 v), ucast (drop_bit 8 v), ucast v]"
  by (auto simp: argBytes_def NewCborWriter_def writeMinimalInitialByte_def AppendUint64_def
      word_le_nat_alt word_less_nat_alt)


lemma readArgumentValue_argBytes:
  assumes mt: "mt \<le> 7" and d: "drop (offset r) (data r) = argBytes mt v @ rest"
  shows "readArgumentValue r mt = (Ok v, r\<lparr>offset := offset r + length (argBytes mt v)\<rparr>)"
proof (cases v rule: width_cases)
  case imm
  have a: "argBytes mt v = [encodeInitialByte mt (ucast v)]"
    using imm by (rule argBytes_imm)
  have ai: "(ucast v :: byte) < 24" using imm by (rule ucast8_lt_32)
  then have ai32: "(ucast v :: byte) < 32" by (simp add: word_less_nat_alt)
  have dec: "decodeInitialByte (encodeInitialByte mt (ucast v)) = (mt, ucast v)"
    by (rule decode_encodeInitialByte [OF mt ai32])
  have bk: "(ucast (ucast v :: byte) :: uint64) = v"
    using imm by (intro ucast_down_up_8) (simp add: word_le_nat_alt word_less_nat_alt)
  from d a have "drop (offset r) (data r) = encodeInitialByte mt (ucast v) # rest" by simp
  note h = drop_eq_ConsD [OF this]
  show ?thesis
    using h(1,2) dec ai bk by (simp add: readArgumentValue_def a)
next
  case w1
  have a: "argBytes mt v = [encodeInitialByte mt 24, ucast v]"
    using w1 by (intro argBytes_w1)
  have dec: "decodeInitialByte (encodeInitialByte mt 24) = (mt, 24)"
    by (rule decode_encodeInitialByte [OF mt]) simp
  have bk: "(ucast (ucast v :: byte) :: uint64) = v"
    using w1 by (intro ucast_down_up_8)
  have nc: "\<not> (ucast v :: byte) < 24" using w1 by (simp add: ucast8_less)
  from d a have d0: "drop (offset r) (data r) = encodeInitialByte mt 24 # ucast v # rest" by simp
  note h = drop_eq_ConsD [OF d0]
  note h1 = drop_eq_ConsD [OF h(3)]
  show ?thesis
    using h(1,2) h1(1,2) dec nc bk by (simp add: readArgumentValue_def a)
next
  case w2
  have a: "argBytes mt v = [encodeInitialByte mt 25, ucast (drop_bit 8 (ucast v :: uint16)),
                    ucast (ucast v :: uint16)]"
    using w2 by (intro argBytes_w2)
  have dec: "decodeInitialByte (encodeInitialByte mt 25) = (mt, 25)"
    by (rule decode_encodeInitialByte [OF mt]) simp
  have bk: "(ucast (ucast v :: uint16) :: uint64) = v"
    using w2 by (intro ucast_down_up_16)
  have nc: "\<not> (ucast v :: uint16) \<le> 0xFF" using w2 by (simp add: ucast16_le)
  from d a have d0: "drop (offset r) (data r) = encodeInitialByte mt 25 #
      (ucast (drop_bit 8 (ucast v :: uint16)) # ucast (ucast v :: uint16) # rest)" by simp
  note h = drop_eq_ConsD [OF d0]
  have len: "offset r + 3 \<le> length (data r)"
    using drop_eq_append_length [OF d] a by simp
  have rd: "Uint16 (drop (Suc (offset r)) (data r)) = ucast v"
    unfolding h(3) by (rule Uint16_bytes)
  show ?thesis
    using h(1,2) len rd dec nc bk by (simp add: readArgumentValue_def a)
next
  case w4
  have a: "argBytes mt v = [encodeInitialByte mt 26, ucast (drop_bit 24 (ucast v :: uint32)),
                    ucast (drop_bit 16 (ucast v :: uint32)),
                    ucast (drop_bit 8 (ucast v :: uint32)), ucast (ucast v :: uint32)]"
    using w4 by (intro argBytes_w4)
  have dec: "decodeInitialByte (encodeInitialByte mt 26) = (mt, 26)"
    by (rule decode_encodeInitialByte [OF mt]) simp
  have bk: "(ucast (ucast v :: uint32) :: uint64) = v"
    using w4 by (intro ucast_down_up_32)
  have nc: "\<not> (ucast v :: uint32) \<le> 0xFFFF" using w4 by (simp add: ucast32_le)
  from d a have d0: "drop (offset r) (data r) = encodeInitialByte mt 26 #
      (ucast (drop_bit 24 (ucast v :: uint32)) # ucast (drop_bit 16 (ucast v :: uint32)) #
       ucast (drop_bit 8 (ucast v :: uint32)) # ucast (ucast v :: uint32) # rest)" by simp
  note h = drop_eq_ConsD [OF d0]
  have len: "offset r + 5 \<le> length (data r)"
    using drop_eq_append_length [OF d] a by simp
  have rd: "Uint32 (drop (Suc (offset r)) (data r)) = ucast v"
    unfolding h(3) by (rule Uint32_bytes)
  show ?thesis
    using h(1,2) len rd dec nc bk by (simp add: readArgumentValue_def a)
next
  case w8
  have a: "argBytes mt v = [encodeInitialByte mt 27, ucast (drop_bit 56 v), ucast (drop_bit 48 v),
                    ucast (drop_bit 40 v), ucast (drop_bit 32 v), ucast (drop_bit 24 v),
                    ucast (drop_bit 16 v), ucast (drop_bit 8 v), ucast v]"
    using w8 by (intro argBytes_w8)
  have dec: "decodeInitialByte (encodeInitialByte mt 27) = (mt, 27)"
    by (rule decode_encodeInitialByte [OF mt]) simp
  from d a have d0: "drop (offset r) (data r) = encodeInitialByte mt 27 #
      (ucast (drop_bit 56 v) # ucast (drop_bit 48 v) #
                    ucast (drop_bit 40 v) # ucast (drop_bit 32 v) # ucast (drop_bit 24 v) #
                    ucast (drop_bit 16 v) # ucast (drop_bit 8 v) # ucast v # rest)" by simp
  note h = drop_eq_ConsD [OF d0]
  have len: "offset r + 9 \<le> length (data r)"
    using drop_eq_append_length [OF d] a by simp
  have rd: "Uint64 (drop (Suc (offset r)) (data r)) = v"
    unfolding h(3) by (rule Uint64_bytes)
  show ?thesis
    using h(1,2) len rd dec w8 by (simp add: readArgumentValue_def a)
qed

lemma sint64_uint:
  fixes w :: "64 word"
  shows "sint w = (if uint w < 2 ^ 63 then uint w else uint w - 2 ^ 64)"
proof -
  have b: "0 \<le> uint w" "uint w < 2 ^ 64"
    using uint_lt2p [of w] by simp_all
  have s: "sint w = (uint w + 2 ^ 63) mod 2 ^ 64 - 2 ^ 63"
    by (simp add: sint_uint signed_take_bit_eq_take_bit_shift take_bit_eq_mod)
  show ?thesis
  proof (cases "uint w < 2 ^ 63")
    case True
    with b have "(uint w + 2 ^ 63) mod 2 ^ 64 = uint w + 2 ^ 63"
      by (intro mod_pos_pos_trivial) simp_all
    with True s show ?thesis by simp
  next
    case False
    with b have "(uint w + 2 ^ 63 - 2 ^ 64) mod 2 ^ 64 = uint w + 2 ^ 63 - 2 ^ 64"
      by (intro mod_pos_pos_trivial) simp_all
    moreover have "(uint w + 2 ^ 63 - 2 ^ 64) mod 2 ^ 64 = (uint w + 2 ^ 63) mod (2 ^ 64 :: int)"
      by (metis mod_diff_right_eq mod_self diff_zero)
    ultimately show ?thesis using False s by simp
  qed
qed

lemma sle0_iff: "(0 \<le>s (i::64 word)) = (i \<le> 0x7FFFFFFFFFFFFFFF)"
  using uint_lt2p [of i] by (simp add: word_sle_eq sint64_uint word_le_def)

lemma neg_arg_small: "\<not> 0 \<le>s (i::64 word) \<Longrightarrow> - 1 - i \<le> 0x7FFFFFFFFFFFFFFF"
proof -
  assume a: "\<not> 0 \<le>s i"
  have b: "0 \<le> uint i" "uint i < 2 ^ 64"
    using uint_lt2p [of i] by simp_all
  have "uint (- 1 - i) = (2 ^ 64 - 1 - uint i) mod 2 ^ 64"
    by (simp add: uint_word_ariths)
  also have "\<dots> = 2 ^ 64 - 1 - uint i"
  proof (rule mod_pos_pos_trivial)
    show "0 \<le> 2 ^ 64 - 1 - uint i" using b by simp
    have "0 \<le> uint i" by simp
    then show "2 ^ 64 - 1 - uint i < 2 ^ 64" by linarith
  qed
  finally show ?thesis
    using a by (simp add: sle0_iff word_le_def)
qed

section \<open>Classification of the next item\<close>

lemma invalidateState_simps [simp]:
  "data (invalidateState r) = data r"
  "offset (invalidateState r) = offset r"
  "rConformanceMode (invalidateState r) = rConformanceMode r"
  "rNestingStack (invalidateState r) = rNestingStack r"
  "rMaxNestingDepth (invalidateState r) = rMaxNestingDepth r"
  "stateComputed (invalidateState r) = False"
  by (simp_all add: invalidateState_def)

lemma PeekState_consistent:
  assumes "cacheConsistent r" "computeState r = Ok s"
  shows "PeekState r = (Ok s, r\<lparr>cachedState := s, stateComputed := True\<rparr>)"
proof (cases "stateComputed r")
  case True
  with assms have "cachedState r = s" by (simp add: cacheConsistent_def)
  with True show ?thesis by (simp add: PeekState_def)
next
  case False
  with assms show ?thesis by (simp add: PeekState_def)
qed


lemma fst_PeekState_consistent:
  assumes "cacheConsistent r"
  shows "fst (PeekState r) = computeState r"
  using assms
  by (cases "stateComputed r"; cases "computeState r")
     (simp_all add: PeekState_def cacheConsistent_def)

lemma PeekState_frame:
  "data (snd (PeekState r)) = data r"
  "offset (snd (PeekState r)) = offset r"
  "rConformanceMode (snd (PeekState r)) = rConformanceMode r"
  "rNestingStack (snd (PeekState r)) = rNestingStack r"
  "rMaxNestingDepth (snd (PeekState r)) = rMaxNestingDepth r"
  by (simp_all add: PeekState_def split: result.splits)

lemma decode_break: "decodeInitialByte 0xFF = (7, 31)"
  by (simp add: decodeInitialByte_def)

lemma classify_break: "classifyInitialByte 0xFF = Err ErrInvalidSimpleValue"
  by (simp add: classifyInitialByte_def decode_break)

lemma encodeInitialByte_not_break:
  assumes "mt \<le> 7" "ai < 31"
  shows "encodeInitialByte mt ai \<noteq> 0xFF"
proof
  assume "encodeInitialByte mt ai = 0xFF"
  then have "decodeInitialByte (encodeInitialByte mt ai) = (7, 31)"
    by (simp add: decode_break)
  moreover have "decodeInitialByte (encodeInitialByte mt ai) = (mt, ai)"
    using assms by (intro decode_encodeInitialByte) (simp_all add: word_less_nat_alt)
  ultimately show False using assms by simp
qed

lemma argBytes_head:
  obtains ai t where "argBytes mt v = encodeInitialByte mt ai # t" "ai < 28"
proof (cases v rule: width_cases)
  case imm
  have "(ucast v :: byte) < 28"
    using ucast8_lt_32 [OF imm] by (simp add: word_less_nat_alt)
  with that argBytes_imm [OF imm] show ?thesis by blast
next
  case w1
  with that [of 24] argBytes_w1 show ?thesis by simp
next
  case w2
  with that [of 25] argBytes_w2 show ?thesis by simp
next
  case w4
  with that [of 26] argBytes_w4 show ?thesis by simp
next
  case w8
  with that [of 27] argBytes_w8 show ?thesis by simp
qed

lemma classify_encoded:
  assumes "mt \<le> 6" "ai < 28"
  shows "classifyInitialByte (encodeInitialByte mt ai) =
     (if mt = 0 then Ok StateUnsignedInteger
      else if mt = 1 then Ok StateNegativeInteger
      else if mt = 2 then Ok StateByteString
      else if mt = 3 then Ok StateTextString
      else if mt = 4 then Ok StateStartArray
      else if mt = 5 then Ok StateStartMap
      else Ok StateTag)"
proof -
  have d: "decodeInitialByte (encodeInitialByte mt ai) = (mt, ai)"
    using assms by (intro decode_encodeInitialByte) (simp_all add: word_less_nat_alt word_le_nat_alt)
  have "mt = 0 \<or> mt = 1 \<or> mt = 2 \<or> mt = 3 \<or> mt = 4 \<or> mt = 5 \<or> mt = 6"
    using assms(1) by (auto simp: word_le_nat_alt word_unat_eq_iff)
  moreover have "ai \<noteq> 31" using assms(2) by auto
  ultimately show ?thesis
    by (auto simp: classifyInitialByte_def d)
qed

lemma computeState_argBytes:
  assumes "mt \<le> 6" "drop (offset r) (data r) = argBytes mt v @ rest"
    "\<not> containerComplete (rNestingStack r)"
  shows "computeState r =
     (if mt = 0 then Ok StateUnsignedInteger
      else if mt = 1 then Ok StateNegativeInteger
      else if mt = 2 then Ok StateByteString
      else if mt = 3 then Ok StateTextString
      else if mt = 4 then Ok StateStartArray
      else if mt = 5 then Ok StateStartMap
      else Ok StateTag)"
proof -
  obtain ai t where a: "argBytes mt v = encodeInitialByte mt ai # t" "ai < 28"
    by (rule argBytes_head)
  from assms(2) a have "drop (offset r) (data r) = encodeInitialByte mt ai # (t @ rest)" by simp
  note h = drop_eq_ConsD [OF this]
  have mt7: "mt \<le> 7" using assms(1) by (simp add: word_le_nat_alt)
  have nb: "encodeInitialByte mt ai \<noteq> 0xFF"
    using mt7 a(2) by (intro encodeInitialByte_not_break) (simp_all add: word_less_nat_alt)
  show ?thesis
    using h(1,2) nb assms(3) classify_encoded [OF assms(1) a(2)]
    by (simp add: computeState_def)
qed

section \<open>Reading an encoded head\<close>

lemma readerAdvanceContainer_simps [simp]:
  "data (readerAdvanceContainer r) = data r"
  "offset (readerAdvanceContainer r) = offset r"
  "rConformanceMode (readerAdvanceContainer r) = rConformanceMode r"
  "rMaxNestingDepth (readerAdvanceContainer r) = rMaxNestingDepth r"
  "length (rNestingStack (readerAdvanceContainer r)) = length (rNestingStack r)"
  by (simp_all add: readerAdvanceContainer_def)

lemma readArgumentValue_frame:
  "data (snd (readArgumentValue r mt)) = data r"
  "rConformanceMode (snd (readArgumentValue r mt)) = rConformanceMode r"
  "rNestingStack (snd (readArgumentValue r mt)) = rNestingStack r"
  "rMaxNestingDepth (snd (readArgumentValue r mt)) = rMaxNestingDepth r"
  "stateComputed (snd (readArgumentValue r mt)) = stateComputed r"
  "cachedState (snd (readArgumentValue r mt)) = cachedState r"
  by (simp_all add: readArgumentValue_def Let_def)

lemma ReadUint64_argBytes:
  assumes c: "cacheConsistent r" and n: "\<not> containerComplete (rNestingStack r)"
    and d: "drop (offset r) (data r) = argBytes 0 v @ rest"
  shows "ReadUint64 r =
     (Ok v, readerAdvanceContainer
        (r\<lparr>cachedState := StateUnsignedInteger, stateComputed := False,
            offset := offset r + length (argBytes 0 v)\<rparr>))"
proof -
  have cs: "computeState r = Ok StateUnsignedInteger"
    using computeState_argBytes [OF _ d n] by simp
  note p = PeekState_consistent [OF c cs]
  let ?r1 = "invalidateState (r\<lparr>cachedState := StateUnsignedInteger, stateComputed := True\<rparr>)"
  have "drop (offset ?r1) (data ?r1) = argBytes 0 v @ rest" using d by simp
  from readArgumentValue_argBytes [OF _ this]
  have "readArgumentValue ?r1 0 = (Ok v, ?r1\<lparr>offset := offset ?r1 + length (argBytes 0 v)\<rparr>)"
    by simp
  then show ?thesis
    by (simp add: ReadUint64_def p invalidateState_def)
qed

lemma ReadInt64_unsigned_argBytes:
  assumes c: "cacheConsistent r" and n: "\<not> containerComplete (rNestingStack r)"
    and d: "drop (offset r) (data r) = argBytes 0 v @ rest"
    and v: "v \<le> 0x7FFFFFFFFFFFFFFF"
  shows "ReadInt64 r =
     (Ok v, readerAdvanceContainer
        (r\<lparr>cachedState := StateUnsignedInteger, stateComputed := False,
            offset := offset r + length (argBytes 0 v)\<rparr>))"
proof -
  have cs: "computeState r = Ok StateUnsignedInteger"
    using computeState_argBytes [OF _ d n] by simp
  note p = PeekState_consistent [OF c cs]
  let ?r1 = "invalidateState (r\<lparr>cachedState := StateUnsignedInteger, stateComputed := True\<rparr>)"
  have "drop (offset ?r1) (data ?r1) = argBytes 0 v @ rest" using d by simp
  from readArgumentValue_argBytes [OF _ this]
  have "readArgumentValue ?r1 0 = (Ok v, ?r1\<lparr>offset := offset ?r1 + length (argBytes 0 v)\<rparr>)"
    by simp
  then show ?thesis
    using v by (simp add: ReadInt64_def p invalidateState_def not_less)
qed

lemma ReadInt64_negative_argBytes:
  assumes c: "cacheConsistent r" and n: "\<not> containerComplete (rNestingStack r)"
    and d: "drop (offset r) (data r) = argBytes 1 v @ rest"
    and v: "v \<le> 0x7FFFFFFFFFFFFFFF"
  shows "ReadInt64 r =
     (Ok (- 1 - v), readerAdvanceContainer
        (r\<lparr>cachedState := StateNegativeInteger, stateComputed := False,
            offset := offset r + length (argBytes 1 v)\<rparr>))"
proof -
  have cs: "computeState r = Ok StateNegativeInteger"
    using computeState_argBytes [OF _ d n] by simp
  note p = PeekState_consistent [OF c cs]
  let ?r1 = "invalidateState (r\<lparr>cachedState := StateNegativeInteger, stateComputed := True\<rparr>)"
  have "drop (offset ?r1) (data ?r1) = argBytes 1 v @ rest" using d by simp
  from readArgumentValue_argBytes [OF _ this]
  have "readArgumentValue ?r1 1 = (Ok v, ?r1\<lparr>offset := offset ?r1 + length (argBytes 1 v)\<rparr>)"
    by simp
  then show ?thesis
    using v by (simp add: ReadInt64_def p invalidateState_def not_less)
qed

lemma ReadTag_argBytes:
  assumes c: "cacheConsistent r" and n: "\<not> containerComplete (rNestingStack r)"
    and d: "drop (offset r) (data r) = argBytes 6 t @ rest"
  shows "ReadTag r =
     (Ok t, r\<lparr>cachedState := StateTag, stateComputed := False,
              offset := offset r + length (argBytes 6 t)\<rparr>)"
proof -
  have cs: "computeState r = Ok StateTag"
    using computeState_argBytes [OF _ d n] by simp
  note p = PeekState_consistent [OF c cs]
  let ?r1 = "invalidateState (r\<lparr>cachedState := StateTag, stateComputed := True\<rparr>)"
  have "drop (offset ?r1) (data ?r1) = argBytes 6 t @ rest" using d by simp
  from readArgumentValue_argBytes [OF _ this]
  have "readArgumentValue ?r1 6 = (Ok t, ?r1\<lparr>offset := offset ?r1 + length (argBytes 6 t)\<rparr>)"
    by simp
  then show ?thesis
    by (simp add: ReadTag_def p invalidateState_def)
qed

lemma ReadTag_stack: "rNestingStack (snd (ReadTag r)) = rNestingStack r"
proof -
  obtain x r1 where p: "PeekState r = (x, r1)" by (cases "PeekState r")
  have s: "rNestingStack r1 = rNestingStack r"
    using PeekState_frame(4) [of r] p by simp
  show ?thesis
    by (cases x) (simp_all add: ReadTag_def p s readArgumentValue_frame)
qed

section \<open>Integers written by the encoder are read back\<close>

lemma NewCborReader_simps [simp]:
  "data (NewCborReader d) = d"
  "offset (NewCborReader d) = 0"
  "rNestingStack (NewCborReader d) = []"
  "stateComputed (NewCborReader d) = False"
  "rMaxNestingDepth (NewCborReader d) = 64"
  "rConformanceMode (NewCborReader d) = ConformanceLax"
  by (simp_all add: NewCborReader_def)

lemma WithReaderConformanceMode_simps [simp]:
  "data (WithReaderConformanceMode m r) = data r"
  "offset (WithReaderConformanceMode m r) = offset r"
  "rNestingStack (WithReaderConformanceMode m r) = rNestingStack r"
  "stateComputed (WithReaderConformanceMode m r) = stateComputed r"
  "rMaxNestingDepth (WithReaderConformanceMode m r) = rMaxNestingDepth r"
  "rConformanceMode (WithReaderConformanceMode m r) = m"
  by (simp_all add: WithReaderConformanceMode_def)

lemma containerComplete_Nil [simp]: "\<not> containerComplete []"
  by (simp add: containerComplete_def)

lemma cacheConsistent_fresh [simp]: "\<not> stateComputed r \<Longrightarrow> cacheConsistent r"
  by (simp add: cacheConsistent_def)

lemma buffer_WriteUint64:
  "buffer (snd (WriteUint64 u w)) = buffer w @ argBytes 0 u"
  by (simp add: WriteUint64_def advanceContainer_def buffer_writeMinimalInitialByte)

lemma buffer_WriteInt64:
  "buffer (snd (WriteInt64 i w)) =
     buffer w @ (if 0 \<le>s i then argBytes 0 i else argBytes 1 (- 1 - i))"
  by (simp add: WriteInt64_def advanceContainer_def buffer_writeMinimalInitialByte)

text \<open>
  Claim C1. For every \<open>uint64\<close> value \<open>u\<close>, \<open>ReadUint64\<close> on the bytes that
  \<open>WriteUint64(u)\<close> leaves in a fresh writer returns \<open>u\<close>; for every \<open>int64\<close> value \<open>i\<close>,
  the least and the greatest included, \<open>ReadInt64\<close> on the bytes of \<open>WriteInt64(i)\<close>
  returns \<open>i\<close>. This holds in every conformance mode of the writer and of the reader, and
  the read consumes the whole encoding.
\<close>

theorem integer_round_trip:
  "fst (ReadUint64 (WithReaderConformanceMode rm
          (NewCborReader (buffer (snd (WriteUint64 u (WithConformanceMode wm NewCborWriter)))))))
     = Ok u
   \<and> offset (snd (ReadUint64 (WithReaderConformanceMode rm
          (NewCborReader (buffer (snd (WriteUint64 u (WithConformanceMode wm NewCborWriter))))))))
     = length (buffer (snd (WriteUint64 u (WithConformanceMode wm NewCborWriter))))
   \<and> fst (ReadInt64 (WithReaderConformanceMode rm
          (NewCborReader (buffer (snd (WriteInt64 i (WithConformanceMode wm NewCborWriter)))))))
     = Ok i
   \<and> offset (snd (ReadInt64 (WithReaderConformanceMode rm
          (NewCborReader (buffer (snd (WriteInt64 i (WithConformanceMode wm NewCborWriter))))))))
     = length (buffer (snd (WriteInt64 i (WithConformanceMode wm NewCborWriter))))"
proof -
  let ?w = "WithConformanceMode wm NewCborWriter"
  have e: "buffer ?w = []" by (simp add: WithConformanceMode_def NewCborWriter_def)
  let ?ru = "WithReaderConformanceMode rm (NewCborReader (buffer (snd (WriteUint64 u ?w))))"
  have du: "drop (offset ?ru) (data ?ru) = argBytes 0 u @ []"
    by (simp add: buffer_WriteUint64 e)
  have u: "ReadUint64 ?ru =
     (Ok u, readerAdvanceContainer
        (?ru\<lparr>cachedState := StateUnsignedInteger, stateComputed := False,
            offset := offset ?ru + length (argBytes 0 u)\<rparr>))"
    by (rule ReadUint64_argBytes [OF _ _ du]) simp_all
  let ?ri = "WithReaderConformanceMode rm (NewCborReader (buffer (snd (WriteInt64 i ?w))))"
  have i: "fst (ReadInt64 ?ri) = Ok i
     \<and> offset (snd (ReadInt64 ?ri)) = length (buffer (snd (WriteInt64 i ?w)))"
  proof (cases "0 \<le>s i")
    case True
    have di: "drop (offset ?ri) (data ?ri) = argBytes 0 i @ []"
      using True by (simp add: buffer_WriteInt64 e)
    have "ReadInt64 ?ri =
     (Ok i, readerAdvanceContainer
        (?ri\<lparr>cachedState := StateUnsignedInteger, stateComputed := False,
            offset := offset ?ri + length (argBytes 0 i)\<rparr>))"
      using True by (intro ReadInt64_unsigned_argBytes [OF _ _ di]) (simp_all add: sle0_iff)
    then show ?thesis using True by (simp add: buffer_WriteInt64 e)
  next
    case False
    have di: "drop (offset ?ri) (data ?ri) = argBytes 1 (- 1 - i) @ []"
      using False by (simp add: buffer_WriteInt64 e)
    have "ReadInt64 ?ri =
     (Ok (- 1 - (- 1 - i)), readerAdvanceContainer
        (?ri\<lparr>cachedState := StateNegativeInteger, stateComputed := False,
            offset := offset ?ri + length (argBytes 1 (- 1 - i))\<rparr>))"
      using False by (intro ReadInt64_negative_argBytes [OF _ _ di]) (simp_all add: neg_arg_small)
    then show ?thesis using False by (simp add: buffer_WriteInt64 e)
  qed
  show ?thesis using u i by (simp add: buffer_WriteUint64 e)
qed

section \<open>A tag does not advance the enclosing container\<close>

text \<open>
  Claim C8. \<open>WriteTag\<close> succeeds, leaves the nesting stack (hence the count of items
  written and the key flag of every frame) and the root flag as they were, and appends
  exactly the head of major type 6 with the tag as argument. \<open>ReadTag\<close> leaves the
  reader's nesting stack as it was whatever it returns, and when the next bytes are the
  head of major type 6 for a tag \<open>t\<close> it returns \<open>t\<close> and consumes exactly that head.
\<close>

theorem tag_does_not_advance_container:
  "fst (WriteTag t w) = None
   \<and> nestingStack (snd (WriteTag t w)) = nestingStack w
   \<and> rootValueWritten (snd (WriteTag t w)) = rootValueWritten w
   \<and> buffer (snd (WriteTag t w)) = buffer w @ argBytes MajorTypeTag t
   \<and> map unat (argBytes MajorTypeTag t) = spec_writeArgument 6 (unat t)
   \<and> rNestingStack (snd (ReadTag r)) = rNestingStack r
   \<and> (cacheConsistent r \<and> \<not> containerComplete (rNestingStack r)
        \<and> drop (offset r) (data r) = argBytes MajorTypeTag t @ rest
      \<longrightarrow> fst (ReadTag r) = Ok t
          \<and> offset (snd (ReadTag r)) = offset r + length (argBytes MajorTypeTag t)
          \<and> data (snd (ReadTag r)) = data r)"
proof -
  have w: "fst (WriteTag t w) = None \<and> nestingStack (snd (WriteTag t w)) = nestingStack w
     \<and> rootValueWritten (snd (WriteTag t w)) = rootValueWritten w"
    by (simp add: WriteTag_def writeMinimalInitialByte_def Let_def)
  have b: "buffer (snd (WriteTag t w)) = buffer w @ argBytes MajorTypeTag t"
    by (simp add: WriteTag_def buffer_writeMinimalInitialByte)
  have s: "map unat (argBytes MajorTypeTag t) = spec_writeArgument 6 (unat t)"
    using unat_argBytes [of 6 t] by simp
  show ?thesis
    using w b s ReadTag_stack [of r] by (auto simp: ReadTag_argBytes)
qed

theorem tag_does_not_advance_container_witness:
  "cacheConsistent (NewCborReader [0xC2, 0x41, 0x01])
   \<and> \<not> containerComplete (rNestingStack (NewCborReader [0xC2, 0x41, 0x01]))
   \<and> drop (offset (NewCborReader [0xC2, 0x41, 0x01])) (data (NewCborReader [0xC2, 0x41, 0x01]))
       = argBytes MajorTypeTag 2 @ [0x41, 0x01]
   \<and> fst (ReadTag (NewCborReader [0xC2, 0x41, 0x01])) = Ok 2
   \<and> offset (snd (ReadTag (NewCborReader [0xC2, 0x41, 0x01]))) = 1
   \<and> rNestingStack (snd (ReadTag (NewCborReader [0xC2, 0x41, 0x01]))) = []"
proof -
  have a: "argBytes MajorTypeTag 2 = [0xC2]"
    by (simp add: argBytes_imm encodeInitialByte_def)
  have h: "cacheConsistent (NewCborReader [0xC2, 0x41, 0x01])
     \<and> \<not> containerComplete (rNestingStack (NewCborReader [0xC2, 0x41, 0x01]))
     \<and> drop (offset (NewCborReader [0xC2, 0x41, 0x01])) (data (NewCborReader [0xC2, 0x41, 0x01]))
       = argBytes MajorTypeTag 2 @ [0x41, 0x01]"
    by (simp add: a)
  show ?thesis
    using h tag_does_not_advance_container
      [of 2 NewCborWriter "NewCborReader [0xC2, 0x41, 0x01]" "[0x41, 0x01]"]
    by (simp add: a)
qed

section \<open>Classification of the break byte\<close>

text \<open>
  The classification of a break byte for a reader whose cached classification, if any,
  is that of the current position, and whose innermost frame does not pass the first
  test of \<open>computeState\<close> (definite, with \<open>itemsRead >= definiteLength\<close> as signed
  64-bit integers): \<open>UnexpectedBreak\<close> at depth 0 and when the innermost frame is not
  indefinite; \<open>IncompleteContainer\<close> for an indefinite map frame with a key read and no
  value; otherwise the end state of the frame's major type, for arrays, maps, byte
  strings and text strings. (A frame of another major type, which no reader operation
  pushes, lets the byte fall through to the classification of \<open>0xFF\<close> as an invalid
  simple value.)
\<close>

lemma PeekState_break_byte:
  assumes "cacheConsistent r" and "offset r < length (data r)"
    and "data r ! offset r = breakByte" and "\<not> containerComplete (rNestingStack r)"
  shows "fst (PeekState r) =
     (if rNestingStack r = [] then Err ErrUnexpectedBreak
      else if \<not> rIsIndefinite (readerTopFrame r) then Err ErrUnexpectedBreak
      else if rMajorType (readerTopFrame r) = MajorTypeMap \<and> keyRead (readerTopFrame r)
        then Err ErrIncompleteContainer
      else if rMajorType (readerTopFrame r) = MajorTypeArray then Ok StateEndArray
      else if rMajorType (readerTopFrame r) = MajorTypeMap then Ok StateEndMap
      else if rMajorType (readerTopFrame r) = MajorTypeByteString
        then Ok StateEndIndefiniteLengthByteString
      else if rMajorType (readerTopFrame r) = MajorTypeTextString
        then Ok StateEndIndefiniteLengthTextString
      else Err ErrInvalidSimpleValue)"
proof -
  have "computeState r =
     (case breakState (rNestingStack r) of Some res \<Rightarrow> res
      | None \<Rightarrow> Err ErrInvalidSimpleValue)"
    using assms(2-4) by (simp add: computeState_def classify_break split: option.splits)
  then show ?thesis
    unfolding fst_PeekState_consistent [OF assms(1)]
    by (simp add: breakState_def readerTopFrame_def Let_def)
qed

lemma PeekState_break_byte_depth0:
  "cacheConsistent (NewCborReader [0xFF])
   \<and> offset (NewCborReader [0xFF]) < length (data (NewCborReader [0xFF]))
   \<and> data (NewCborReader [0xFF]) ! offset (NewCborReader [0xFF]) = breakByte
   \<and> \<not> containerComplete (rNestingStack (NewCborReader [0xFF]))
   \<and> fst (PeekState (NewCborReader [0xFF])) = Err ErrUnexpectedBreak"
proof -
  have h1: "cacheConsistent (NewCborReader [0xFF])" by simp
  have h2: "offset (NewCborReader [0xFF]) < length (data (NewCborReader [0xFF]))" by simp
  have h3: "data (NewCborReader [0xFF]) ! offset (NewCborReader [0xFF]) = breakByte" by simp
  have h4: "\<not> containerComplete (rNestingStack (NewCborReader [0xFF]))" by simp
  show ?thesis
    using h1 h2 h3 h4 PeekState_break_byte [OF h1 h2 h3 h4] by simp
qed

section \<open>A failed end of container leaves the writer as it was\<close>

text \<open>
  Claim C10. Whenever \<open>WriteEndArray\<close> or \<open>WriteEndMap\<close> returns an error, the writer
  after the call is the writer before it: buffer, nesting stack and every field of every
  frame. The error is \<open>InvalidState\<close> exactly when no container is open or the innermost
  one has the wrong major type, \<open>IncompleteContainer\<close> exactly when a definite container
  has fewer items than declared or (for a map) a key is written without its value, and
  \<open>ExtraItems\<close> exactly when a definite container has more items than declared; there is
  no other error.
\<close>

theorem WriteEnd_error_leaves_writer_unchanged:
  "(fst (WriteEndArray w) \<noteq> None \<longrightarrow> snd (WriteEndArray w) = w)
   \<and> (fst (WriteEndMap w) \<noteq> None \<longrightarrow> snd (WriteEndMap w) = w)
   \<and> fst (WriteEndArray w)
       \<in> {None, Some ErrInvalidState, Some ErrIncompleteContainer, Some ErrExtraItems}
   \<and> fst (WriteEndMap w)
       \<in> {None, Some ErrInvalidState, Some ErrIncompleteContainer, Some ErrExtraItems}
   \<and> (fst (WriteEndArray w) = Some ErrInvalidState
      \<longleftrightarrow> nestingStack w = [] \<or> majorType (topFrame w) \<noteq> MajorTypeArray)
   \<and> (fst (WriteEndArray w) = Some ErrIncompleteContainer
      \<longleftrightarrow> nestingStack w \<noteq> [] \<and> majorType (topFrame w) = MajorTypeArray
          \<and> \<not> isIndefinite (topFrame w)
          \<and> itemsWritten (topFrame w) <s definiteLength (topFrame w))
   \<and> (fst (WriteEndArray w) = Some ErrExtraItems
      \<longleftrightarrow> nestingStack w \<noteq> [] \<and> majorType (topFrame w) = MajorTypeArray
          \<and> \<not> isIndefinite (topFrame w)
          \<and> definiteLength (topFrame w) <s itemsWritten (topFrame w))
   \<and> (fst (WriteEndMap w) = Some ErrInvalidState
      \<longleftrightarrow> nestingStack w = [] \<or> majorType (topFrame w) \<noteq> MajorTypeMap)
   \<and> (fst (WriteEndMap w) = Some ErrIncompleteContainer
      \<longleftrightarrow> nestingStack w \<noteq> [] \<and> majorType (topFrame w) = MajorTypeMap
          \<and> (keyWritten (topFrame w)
               \<or> \<not> isIndefinite (topFrame w)
                 \<and> itemsWritten (topFrame w) <s definiteLength (topFrame w)))
   \<and> (fst (WriteEndMap w) = Some ErrExtraItems
      \<longleftrightarrow> nestingStack w \<noteq> [] \<and> majorType (topFrame w) = MajorTypeMap
          \<and> \<not> keyWritten (topFrame w) \<and> \<not> isIndefinite (topFrame w)
          \<and> definiteLength (topFrame w) <s itemsWritten (topFrame w))"
  using WriteEndArray_error_unchanged [of w] WriteEndMap_error_unchanged [of w]
    WriteEnd_error_kinds [of w] WriteEndArray_errors [of w] WriteEndMap_errors [of w]
  by (intro conjI impI) blast+

theorem WriteEnd_error_leaves_writer_unchanged_witness:
  "fst (WriteEndArray (snd (WriteStartArray 1 NewCborWriter))) = Some ErrIncompleteContainer
   \<and> snd (WriteEndArray (snd (WriteStartArray 1 NewCborWriter)))
       = snd (WriteStartArray 1 NewCborWriter)
   \<and> fst (WriteEndMap (snd (WriteStartArray 1 NewCborWriter))) = Some ErrInvalidState
   \<and> snd (WriteEndMap (snd (WriteStartArray 1 NewCborWriter)))
       = snd (WriteStartArray 1 NewCborWriter)"
proof -
  let ?w = "snd (WriteStartArray 1 NewCborWriter)"
  have s: "nestingStack ?w =
     [\<lparr>majorType = MajorTypeArray, definiteLength = 1, itemsWritten = 0,
       isMap = False, keyWritten = False, isIndefinite = False\<rparr>]"
    by (simp add: WriteStartArray_def checkNestingDepth_def NewCborWriter_def pushFrame_def
        writeMinimalInitialByte_def)
  have a: "fst (WriteEndArray ?w) = Some ErrIncompleteContainer"
    unfolding WriteEndArray_def s by (simp add: word_sless_alt)
  have m: "fst (WriteEndMap ?w) = Some ErrInvalidState"
    unfolding WriteEndMap_def s by simp
  show ?thesis
    using a m WriteEnd_error_leaves_writer_unchanged [of ?w] by simp
qed

section \<open>The nesting cap\<close>

lemma WriteStart_definite_depth:
  "int (length (nestingStack w)) \<ge> maxNestingDepth w \<Longrightarrow>
     WriteStartArray len w = (Some ErrNestingDepthExceeded, w)
     \<and> WriteStartMap len w = (Some ErrNestingDepthExceeded, w)"
  "int (length (nestingStack w)) < maxNestingDepth w \<Longrightarrow>
     fst (WriteStartArray len w) = None
     \<and> length (nestingStack (snd (WriteStartArray len w))) = Suc (length (nestingStack w))
     \<and> fst (WriteStartMap len w) = None
     \<and> length (nestingStack (snd (WriteStartMap len w))) = Suc (length (nestingStack w))"
  by (simp_all add: WriteStartArray_def WriteStartMap_def checkNestingDepth_def pushFrame_def
      writeMinimalInitialByte_def Let_def)

lemma WriteStart_indefinite_depth:
  "int (length (nestingStack w)) \<ge> maxNestingDepth w \<Longrightarrow> \<not> canonicalMode w \<Longrightarrow>
     WriteStartIndefiniteLengthArray w = (Some ErrNestingDepthExceeded, w)
     \<and> WriteStartIndefiniteLengthMap w = (Some ErrNestingDepthExceeded, w)
     \<and> WriteStartIndefiniteLengthByteString w = (Some ErrNestingDepthExceeded, w)
     \<and> WriteStartIndefiniteLengthTextString w = (Some ErrNestingDepthExceeded, w)"
  "canonicalMode w \<Longrightarrow>
     WriteStartIndefiniteLengthArray w = (Some ErrIndefiniteLengthNotAllowed, w)
     \<and> WriteStartIndefiniteLengthMap w = (Some ErrIndefiniteLengthNotAllowed, w)
     \<and> WriteStartIndefiniteLengthByteString w = (Some ErrIndefiniteLengthNotAllowed, w)
     \<and> WriteStartIndefiniteLengthTextString w = (Some ErrIndefiniteLengthNotAllowed, w)"
  "int (length (nestingStack w)) < maxNestingDepth w \<Longrightarrow> \<not> canonicalMode w \<Longrightarrow>
     fst (WriteStartIndefiniteLengthArray w) = None
     \<and> length (nestingStack (snd (WriteStartIndefiniteLengthArray w)))
         = Suc (length (nestingStack w))
     \<and> fst (WriteStartIndefiniteLengthMap w) = None
     \<and> length (nestingStack (snd (WriteStartIndefiniteLengthMap w)))
         = Suc (length (nestingStack w))
     \<and> fst (WriteStartIndefiniteLengthByteString w) = None
     \<and> length (nestingStack (snd (WriteStartIndefiniteLengthByteString w)))
         = Suc (length (nestingStack w))
     \<and> fst (WriteStartIndefiniteLengthTextString w) = None
     \<and> length (nestingStack (snd (WriteStartIndefiniteLengthTextString w)))
         = Suc (length (nestingStack w))"
  by (simp_all add: WriteStartIndefiniteLengthArray_def WriteStartIndefiniteLengthMap_def
      WriteStartIndefiniteLengthByteString_def WriteStartIndefiniteLengthTextString_def
      checkNestingDepth_def pushFrame_def appendByte_def)

lemma ReadStart_depth_reached:
  assumes "PeekState r = (Ok StateStartArray, r1)"
    and "int (length (rNestingStack r)) \<ge> rMaxNestingDepth r"
  shows "ReadStartArray r = (Err ErrNestingDepthExceeded, r1)"
    and "rNestingStack r1 = rNestingStack r"
proof -
  show s: "rNestingStack r1 = rNestingStack r"
    using PeekState_frame(4) [of r] assms(1) by simp
  have "rMaxNestingDepth r1 = rMaxNestingDepth r"
    using PeekState_frame(5) [of r] assms(1) by simp
  with s assms show "ReadStartArray r = (Err ErrNestingDepthExceeded, r1)"
    by (simp add: ReadStartArray_def)
qed

lemma ReadStartMap_depth_reached:
  assumes "PeekState r = (Ok StateStartMap, r1)"
    and "int (length (rNestingStack r)) \<ge> rMaxNestingDepth r"
  shows "ReadStartMap r = (Err ErrNestingDepthExceeded, r1)"
    and "rNestingStack r1 = rNestingStack r"
proof -
  show s: "rNestingStack r1 = rNestingStack r"
    using PeekState_frame(4) [of r] assms(1) by simp
  have "rMaxNestingDepth r1 = rMaxNestingDepth r"
    using PeekState_frame(5) [of r] assms(1) by simp
  with s assms show "ReadStartMap r = (Err ErrNestingDepthExceeded, r1)"
    by (simp add: ReadStartMap_def)
qed

lemma PeekState_not_depth_error: "fst (PeekState r) \<noteq> Err ErrNestingDepthExceeded"
  by (auto simp: PeekState_def computeState_def breakState_def classifyInitialByte_def Let_def
      split: result.splits option.splits if_splits)

lemma readArgumentValue_not_depth_error:
  "fst (readArgumentValue r mt) \<noteq> Err ErrNestingDepthExceeded"
  by (simp add: readArgumentValue_def Let_def)

lemma ReadStartArray_below_depth:
  assumes "int (length (rNestingStack r)) < rMaxNestingDepth r"
  shows "fst (ReadStartArray r) \<noteq> Err ErrNestingDepthExceeded"
proof -
  obtain x r1 where p: "PeekState r = (x, r1)" by (cases "PeekState r")
  have s: "rNestingStack r1 = rNestingStack r" "rMaxNestingDepth r1 = rMaxNestingDepth r"
    using PeekState_frame(4,5) [of r] p by simp_all
  have x: "x \<noteq> Err ErrNestingDepthExceeded"
    using PeekState_not_depth_error [of r] p by simp
  show ?thesis
    using x assms readArgumentValue_not_depth_error [of "invalidateState r1" 4]
    by (cases x)
       (auto simp: ReadStartArray_def p s Let_def split: prod.splits result.splits)
qed

lemma ReadStartMap_below_depth:
  assumes "int (length (rNestingStack r)) < rMaxNestingDepth r"
  shows "fst (ReadStartMap r) \<noteq> Err ErrNestingDepthExceeded"
proof -
  obtain x r1 where p: "PeekState r = (x, r1)" by (cases "PeekState r")
  have s: "rNestingStack r1 = rNestingStack r" "rMaxNestingDepth r1 = rMaxNestingDepth r"
    using PeekState_frame(4,5) [of r] p by simp_all
  have x: "x \<noteq> Err ErrNestingDepthExceeded"
    using PeekState_not_depth_error [of r] p by simp
  show ?thesis
    using x assms readArgumentValue_not_depth_error [of "invalidateState r1" 5]
    by (cases x)
       (auto simp: ReadStartMap_def p s Let_def split: prod.splits result.splits)
qed

lemma WriteStartArray_maxNestingDepth:
  "maxNestingDepth (snd (WriteStartArray len w)) = maxNestingDepth w"
  by (simp add: WriteStartArray_def checkNestingDepth_def pushFrame_def
      writeMinimalInitialByte_def Let_def)

lemma writeStartArrays_cap:
  assumes "maxNestingDepth w = int N" "length (nestingStack w) = k" "N - k = d" "k \<le> N"
  shows "fst (writeStartArrays (Suc d) w) = replicate d None @ [Some ErrNestingDepthExceeded]"
  using assms
proof (induction d arbitrary: k w)
  case 0
  then have "int (length (nestingStack w)) \<ge> maxNestingDepth w" by simp
  from WriteStart_definite_depth(1) [OF this, of 1]
  show ?case by simp
next
  case (Suc d)
  then have lt: "int (length (nestingStack w)) < maxNestingDepth w" by simp
  obtain e w1 where s: "WriteStartArray 1 w = (e, w1)" by (cases "WriteStartArray 1 w")
  from WriteStart_definite_depth(2) [OF lt, of 1] s
  have e: "e = None" and l: "length (nestingStack w1) = Suc k"
    using Suc.prems(2) by simp_all
  have m: "maxNestingDepth w1 = int N"
    using WriteStartArray_maxNestingDepth [of 1 w] s Suc.prems(1) by simp
  have "fst (writeStartArrays (Suc d) w1) = replicate d None @ [Some ErrNestingDepthExceeded]"
    using Suc.prems by (intro Suc.IH [OF m l]) simp_all
  then show ?case
    by (simp add: s e split: prod.splits)
qed




lemma encodeInitialByte_injective_ai:
  assumes "mt \<le> 7" "ai < 32" "ai' < 32" "encodeInitialByte mt ai = encodeInitialByte mt ai'"
  shows "ai = ai'"
proof -
  have "decodeInitialByte (encodeInitialByte mt ai) = (mt, ai)"
    using assms(1,2) by (rule decode_encodeInitialByte)
  moreover have "decodeInitialByte (encodeInitialByte mt ai') = (mt, ai')"
    using assms(1,3) by (rule decode_encodeInitialByte)
  ultimately show ?thesis using assms(4) by (metis snd_conv)
qed

lemma head_not_indefinite:
  assumes "mt \<le> 7" "ai < 28"
  shows "encodeInitialByte mt ai \<noteq> encodeInitialByte mt 31"
proof
  assume e: "encodeInitialByte mt ai = encodeInitialByte mt 31"
  have "ai < 32" using assms(2) by (simp add: word_less_nat_alt)
  from encodeInitialByte_injective_ai [OF assms(1) this _ e]
  have "ai = 31" by simp
  with assms(2) show False by simp
qed

lemma ReadStartArray_argBytes:
  assumes c: "cacheConsistent r" and n: "\<not> containerComplete (rNestingStack r)"
    and d: "drop (offset r) (data r) = argBytes MajorTypeArray len @ rest"
    and lt: "int (length (rNestingStack r)) < rMaxNestingDepth r"
  shows "ReadStartArray r =
     (Ok (intOfUint64 len),
      r\<lparr>cachedState := StateStartArray, stateComputed := False,
         offset := offset r + length (argBytes MajorTypeArray len),
         rNestingStack := rNestingStack r @
           [\<lparr>rMajorType = MajorTypeArray, rDefiniteLength = len, itemsRead = 0,
             rIsMap = False, keyRead = False, rIsIndefinite = False\<rparr>]\<rparr>)"
proof -
  have cs: "computeState r = Ok StateStartArray"
    using computeState_argBytes [OF _ d n] by simp
  note p = PeekState_consistent [OF c cs]
  obtain ai t where a: "argBytes 4 len = encodeInitialByte 4 ai # t" "ai < 28"
    by (rule argBytes_head)
  from d a have "drop (offset r) (data r) = encodeInitialByte 4 ai # (t @ rest)" by simp
  note h = drop_eq_ConsD [OF this]
  have ne: "encodeInitialByte 4 ai \<noteq> encodeInitialByte 4 31"
    by (rule head_not_indefinite [OF _ a(2)]) simp
  let ?r1 = "invalidateState (r\<lparr>cachedState := StateStartArray, stateComputed := True\<rparr>)"
  have "drop (offset ?r1) (data ?r1) = argBytes 4 len @ rest" using d by simp
  from readArgumentValue_argBytes [OF _ this]
  have "readArgumentValue ?r1 4 = (Ok len, ?r1\<lparr>offset := offset ?r1 + length (argBytes 4 len)\<rparr>)"
    by simp
  then show ?thesis
    using h(1,2) ne lt by (simp add: ReadStartArray_def p invalidateState_def Let_def)
qed

lemma argBytes_array_1: "argBytes MajorTypeArray 1 = [0x81]"
  by (simp add: argBytes_imm encodeInitialByte_def)

lemma containerComplete_snoc_fresh:
  "\<not> containerComplete (st @
     [\<lparr>rMajorType = MajorTypeArray, rDefiniteLength = 1, itemsRead = 0,
       rIsMap = False, keyRead = False, rIsIndefinite = False\<rparr>])"
  by (simp add: containerComplete_def word_sle_eq)


lemma drop_replicate_Suc:
  assumes "k \<le> N"
  shows "drop k (replicate (Suc N) x) = x # replicate (N - k) x"
proof -
  have "drop k (replicate (Suc N) x) = replicate (Suc N - k) x"
    by (rule drop_replicate)
  also have "Suc N - k = Suc (N - k)"
    using assms by (rule Suc_diff_le)
  finally show ?thesis by simp
qed

lemma readStartArrays_cap:
  assumes "data r = replicate (Suc N) 0x81" "offset r = k" "length (rNestingStack r) = k"
    "rMaxNestingDepth r = int N" "\<not> stateComputed r" "\<not> containerComplete (rNestingStack r)"
    "N - k = d" "k \<le> N"
  shows "fst (readStartArrays (Suc d) r) = replicate d (Ok 1) @ [Err ErrNestingDepthExceeded]"
  using assms
proof (induction d arbitrary: k r)
  case 0
  then have k: "k = N" by simp
  have dr: "drop (offset r) (data r) = argBytes MajorTypeArray 1 @ []"
    using "0.prems" k drop_replicate_Suc [of N N "0x81::byte"] by (simp add: argBytes_array_1)
  have cs: "computeState r = Ok StateStartArray"
    using computeState_argBytes [OF _ dr] "0.prems"(6) by simp
  have c: "cacheConsistent r" using "0.prems"(5) by simp
  note p = PeekState_consistent [OF c cs]
  have "int (length (rNestingStack r)) \<ge> rMaxNestingDepth r" using "0.prems" k by simp
  from ReadStart_depth_reached(1) [OF p this]
  show ?case by simp
next
  case (Suc d)
  then have lt: "k < N" by simp
  have "drop k (replicate (Suc N) (0x81::byte)) = 0x81 # replicate (N - k) 0x81"
    using lt by (intro drop_replicate_Suc) simp
  then have dr: "drop (offset r) (data r) = argBytes MajorTypeArray 1 @ replicate (N - k) 0x81"
    using Suc.prems by (simp add: argBytes_array_1)
  have c: "cacheConsistent r" using Suc.prems(5) by simp
  have l: "int (length (rNestingStack r)) < rMaxNestingDepth r" using Suc.prems lt by simp
  note rs = ReadStartArray_argBytes [OF c Suc.prems(6) dr l]
  let ?r' = "r\<lparr>cachedState := StateStartArray, stateComputed := False,
         offset := offset r + length (argBytes MajorTypeArray 1),
         rNestingStack := rNestingStack r @
           [\<lparr>rMajorType = MajorTypeArray, rDefiniteLength = 1, itemsRead = 0,
             rIsMap = False, keyRead = False, rIsIndefinite = False\<rparr>]\<rparr>"
  have "fst (readStartArrays (Suc d) ?r') = replicate d (Ok 1) @ [Err ErrNestingDepthExceeded]"
    using Suc.prems lt
    by (intro Suc.IH [of _ "Suc k"])
       (simp_all add: argBytes_array_1 containerComplete_snoc_fresh)
  then show ?case
    by (simp add: rs intOfUint64_def split: prod.splits)
qed

lemma ReadStartArray_depth_reached_fails:
  assumes "int (length (rNestingStack r)) \<ge> rMaxNestingDepth r"
  shows "fst (ReadStartArray r) \<noteq> Ok v"
    and "rNestingStack (snd (ReadStartArray r)) = rNestingStack r"
proof -
  obtain x r1 where p: "PeekState r = (x, r1)" by (cases "PeekState r")
  have s: "rNestingStack r1 = rNestingStack r" "rMaxNestingDepth r1 = rMaxNestingDepth r"
    using PeekState_frame(4,5) [of r] p by simp_all
  show "fst (ReadStartArray r) \<noteq> Ok v"
    using assms by (cases x) (simp_all add: ReadStartArray_def p s)
  show "rNestingStack (snd (ReadStartArray r)) = rNestingStack r"
    using assms by (cases x) (simp_all add: ReadStartArray_def p s)
qed

lemma ReadStartMap_depth_reached_fails:
  assumes "int (length (rNestingStack r)) \<ge> rMaxNestingDepth r"
  shows "fst (ReadStartMap r) \<noteq> Ok v"
    and "rNestingStack (snd (ReadStartMap r)) = rNestingStack r"
proof -
  obtain x r1 where p: "PeekState r = (x, r1)" by (cases "PeekState r")
  have s: "rNestingStack r1 = rNestingStack r" "rMaxNestingDepth r1 = rMaxNestingDepth r"
    using PeekState_frame(4,5) [of r] p by simp_all
  show "fst (ReadStartMap r) \<noteq> Ok v"
    using assms by (cases x) (simp_all add: ReadStartMap_def p s)
  show "rNestingStack (snd (ReadStartMap r)) = rNestingStack r"
    using assms by (cases x) (simp_all add: ReadStartMap_def p s)
qed

lemma ReadStart_depth_reached_kind:
  assumes "int (length (rNestingStack r)) \<ge> rMaxNestingDepth r"
  shows "fst (PeekState r) = Ok StateStartArray
           \<Longrightarrow> fst (ReadStartArray r) = Err ErrNestingDepthExceeded"
    and "fst (PeekState r) = Ok StateStartMap
           \<Longrightarrow> fst (ReadStartMap r) = Err ErrNestingDepthExceeded"
proof -
  obtain x r1 where p: "PeekState r = (x, r1)" by (cases "PeekState r")
  show "fst (PeekState r) = Ok StateStartArray
           \<Longrightarrow> fst (ReadStartArray r) = Err ErrNestingDepthExceeded"
    using ReadStart_depth_reached(1) [OF _ assms, of r1] p by simp
  show "fst (PeekState r) = Ok StateStartMap
           \<Longrightarrow> fst (ReadStartMap r) = Err ErrNestingDepthExceeded"
    using ReadStartMap_depth_reached(1) [OF _ assms, of r1] p by simp
qed

lemma readStartArrays_fresh:
  "fst (readStartArrays (Suc N)
          (WithReaderMaxNestingDepth (int N) (NewCborReader (replicate (Suc N) 0x81))))
   = replicate N (Ok 1) @ [Err ErrNestingDepthExceeded]"
  by (rule readStartArrays_cap [where k = 0 and N = N])
     (simp_all add: WithReaderMaxNestingDepth_def NewCborReader_def)

text \<open>
  Claim C9, as amended. With \<open>maxNestingDepth\<close> configured, every start operation issued
  while that many frames (or more) are open fails and pushes no frame; the writer is left
  exactly as it was, the reader's nesting stack is left as it was. On the writer the
  error is \<open>NestingDepthExceeded\<close>, except for the four \<open>WriteStartIndefiniteLength\<close>
  operations in canonical and CTAP2-canonical mode, which test the mode first and fail
  with \<open>IndefiniteLengthNotAllowed\<close> at every depth. On the reader the error is
  \<open>NestingDepthExceeded\<close> when the next item is classified as the start of an array (for
  \<open>ReadStartArray\<close>) or of a map (for \<open>ReadStartMap\<close>). Below the cap no start is
  rejected for depth. With cap \<open>N\<close>, of \<open>N + 1\<close> nested \<open>WriteStartArray(1)\<close> calls on a
  writer with no open frame the first \<open>N\<close> succeed and the last fails with
  \<open>NestingDepthExceeded\<close>, and the reader does the same on \<open>N + 1\<close> nested arrays.
\<close>

theorem nesting_cap:
  "(int (length (nestingStack w)) \<ge> maxNestingDepth w \<longrightarrow>
      WriteStartArray len w = (Some ErrNestingDepthExceeded, w)
      \<and> WriteStartMap len w = (Some ErrNestingDepthExceeded, w)
      \<and> (\<not> canonicalMode w \<longrightarrow>
           WriteStartIndefiniteLengthArray w = (Some ErrNestingDepthExceeded, w)
           \<and> WriteStartIndefiniteLengthMap w = (Some ErrNestingDepthExceeded, w)
           \<and> WriteStartIndefiniteLengthByteString w = (Some ErrNestingDepthExceeded, w)
           \<and> WriteStartIndefiniteLengthTextString w = (Some ErrNestingDepthExceeded, w)))
   \<and> (canonicalMode w \<longrightarrow>
        WriteStartIndefiniteLengthArray w = (Some ErrIndefiniteLengthNotAllowed, w)
        \<and> WriteStartIndefiniteLengthMap w = (Some ErrIndefiniteLengthNotAllowed, w)
        \<and> WriteStartIndefiniteLengthByteString w = (Some ErrIndefiniteLengthNotAllowed, w)
        \<and> WriteStartIndefiniteLengthTextString w = (Some ErrIndefiniteLengthNotAllowed, w))
   \<and> (int (length (nestingStack w)) < maxNestingDepth w \<longrightarrow>
        fst (WriteStartArray len w) = None
        \<and> length (nestingStack (snd (WriteStartArray len w))) = Suc (length (nestingStack w))
        \<and> fst (WriteStartMap len w) = None
        \<and> length (nestingStack (snd (WriteStartMap len w))) = Suc (length (nestingStack w))
        \<and> (\<not> canonicalMode w \<longrightarrow>
             fst (WriteStartIndefiniteLengthArray w) = None
             \<and> length (nestingStack (snd (WriteStartIndefiniteLengthArray w)))
                 = Suc (length (nestingStack w))
             \<and> fst (WriteStartIndefiniteLengthMap w) = None
             \<and> length (nestingStack (snd (WriteStartIndefiniteLengthMap w)))
                 = Suc (length (nestingStack w))
             \<and> fst (WriteStartIndefiniteLengthByteString w) = None
             \<and> length (nestingStack (snd (WriteStartIndefiniteLengthByteString w)))
                 = Suc (length (nestingStack w))
             \<and> fst (WriteStartIndefiniteLengthTextString w) = None
             \<and> length (nestingStack (snd (WriteStartIndefiniteLengthTextString w)))
                 = Suc (length (nestingStack w))))
   \<and> (int (length (rNestingStack r)) \<ge> rMaxNestingDepth r \<longrightarrow>
        fst (ReadStartArray r) \<noteq> Ok v
        \<and> rNestingStack (snd (ReadStartArray r)) = rNestingStack r
        \<and> fst (ReadStartMap r) \<noteq> Ok v
        \<and> rNestingStack (snd (ReadStartMap r)) = rNestingStack r
        \<and> (fst (PeekState r) = Ok StateStartArray
             \<longrightarrow> fst (ReadStartArray r) = Err ErrNestingDepthExceeded)
        \<and> (fst (PeekState r) = Ok StateStartMap
             \<longrightarrow> fst (ReadStartMap r) = Err ErrNestingDepthExceeded))
   \<and> (int (length (rNestingStack r)) < rMaxNestingDepth r \<longrightarrow>
        fst (ReadStartArray r) \<noteq> Err ErrNestingDepthExceeded
        \<and> fst (ReadStartMap r) \<noteq> Err ErrNestingDepthExceeded)
   \<and> (maxNestingDepth w = int N \<and> nestingStack w = [] \<longrightarrow>
        fst (writeStartArrays (Suc N) w) = replicate N None @ [Some ErrNestingDepthExceeded])
   \<and> fst (readStartArrays (Suc N)
          (WithReaderMaxNestingDepth (int N) (NewCborReader (replicate (Suc N) 0x81))))
       = replicate N (Ok 1) @ [Err ErrNestingDepthExceeded]"
proof -
  have a: "int (length (nestingStack w)) \<ge> maxNestingDepth w \<longrightarrow>
      WriteStartArray len w = (Some ErrNestingDepthExceeded, w)
      \<and> WriteStartMap len w = (Some ErrNestingDepthExceeded, w)
      \<and> (\<not> canonicalMode w \<longrightarrow>
           WriteStartIndefiniteLengthArray w = (Some ErrNestingDepthExceeded, w)
           \<and> WriteStartIndefiniteLengthMap w = (Some ErrNestingDepthExceeded, w)
           \<and> WriteStartIndefiniteLengthByteString w = (Some ErrNestingDepthExceeded, w)
           \<and> WriteStartIndefiniteLengthTextString w = (Some ErrNestingDepthExceeded, w))"
    using WriteStart_definite_depth(1) [of w len] WriteStart_indefinite_depth(1) [of w]
    by blast
  have b: "canonicalMode w \<longrightarrow>
        WriteStartIndefiniteLengthArray w = (Some ErrIndefiniteLengthNotAllowed, w)
        \<and> WriteStartIndefiniteLengthMap w = (Some ErrIndefiniteLengthNotAllowed, w)
        \<and> WriteStartIndefiniteLengthByteString w = (Some ErrIndefiniteLengthNotAllowed, w)
        \<and> WriteStartIndefiniteLengthTextString w = (Some ErrIndefiniteLengthNotAllowed, w)"
    using WriteStart_indefinite_depth(2) [of w] by blast
  have c: "int (length (nestingStack w)) < maxNestingDepth w \<longrightarrow>
        fst (WriteStartArray len w) = None
        \<and> length (nestingStack (snd (WriteStartArray len w))) = Suc (length (nestingStack w))
        \<and> fst (WriteStartMap len w) = None
        \<and> length (nestingStack (snd (WriteStartMap len w))) = Suc (length (nestingStack w))
        \<and> (\<not> canonicalMode w \<longrightarrow>
             fst (WriteStartIndefiniteLengthArray w) = None
             \<and> length (nestingStack (snd (WriteStartIndefiniteLengthArray w)))
                 = Suc (length (nestingStack w))
             \<and> fst (WriteStartIndefiniteLengthMap w) = None
             \<and> length (nestingStack (snd (WriteStartIndefiniteLengthMap w)))
                 = Suc (length (nestingStack w))
             \<and> fst (WriteStartIndefiniteLengthByteString w) = None
             \<and> length (nestingStack (snd (WriteStartIndefiniteLengthByteString w)))
                 = Suc (length (nestingStack w))
             \<and> fst (WriteStartIndefiniteLengthTextString w) = None
             \<and> length (nestingStack (snd (WriteStartIndefiniteLengthTextString w)))
                 = Suc (length (nestingStack w)))"
    using WriteStart_definite_depth(2) [of w len] WriteStart_indefinite_depth(3) [of w]
    by blast
  have d: "int (length (rNestingStack r)) \<ge> rMaxNestingDepth r \<longrightarrow>
        fst (ReadStartArray r) \<noteq> Ok v
        \<and> rNestingStack (snd (ReadStartArray r)) = rNestingStack r
        \<and> fst (ReadStartMap r) \<noteq> Ok v
        \<and> rNestingStack (snd (ReadStartMap r)) = rNestingStack r
        \<and> (fst (PeekState r) = Ok StateStartArray
             \<longrightarrow> fst (ReadStartArray r) = Err ErrNestingDepthExceeded)
        \<and> (fst (PeekState r) = Ok StateStartMap
             \<longrightarrow> fst (ReadStartMap r) = Err ErrNestingDepthExceeded)"
    using ReadStartArray_depth_reached_fails(1) [of r v]
      ReadStartArray_depth_reached_fails(2) [of r]
      ReadStartMap_depth_reached_fails(1) [of r v]
      ReadStartMap_depth_reached_fails(2) [of r]
      ReadStart_depth_reached_kind [of r]
    by blast
  have e: "int (length (rNestingStack r)) < rMaxNestingDepth r \<longrightarrow>
        fst (ReadStartArray r) \<noteq> Err ErrNestingDepthExceeded
        \<and> fst (ReadStartMap r) \<noteq> Err ErrNestingDepthExceeded"
    using ReadStartArray_below_depth [of r] ReadStartMap_below_depth [of r] by blast
  have f: "maxNestingDepth w = int N \<and> nestingStack w = [] \<longrightarrow>
        fst (writeStartArrays (Suc N) w) = replicate N None @ [Some ErrNestingDepthExceeded]"
    using writeStartArrays_cap [of w N 0 N] by simp
  from a b c d e f readStartArrays_fresh [of N] show ?thesis
    by (intro conjI)
qed

text \<open>
  The claim as stated fails in canonical mode: with a cap of 1 and one array open,
  \<open>WriteStartIndefiniteLengthArray\<close> fails with \<open>IndefiniteLengthNotAllowed\<close>, not with
  \<open>NestingDepthExceeded\<close>.
\<close>

theorem nesting_cap_counterexample:
  "maxNestingDepth (snd (WriteStartArray 1
      (WithMaxNestingDepth 1 (WithConformanceMode ConformanceCanonical NewCborWriter)))) = 1
   \<and> length (nestingStack (snd (WriteStartArray 1
      (WithMaxNestingDepth 1 (WithConformanceMode ConformanceCanonical NewCborWriter))))) = 1
   \<and> fst (WriteStartIndefiniteLengthArray (snd (WriteStartArray 1
      (WithMaxNestingDepth 1 (WithConformanceMode ConformanceCanonical NewCborWriter)))))
     = Some ErrIndefiniteLengthNotAllowed"
  by (simp add: WriteStartArray_def WriteStartIndefiniteLengthArray_def checkNestingDepth_def
      WithMaxNestingDepth_def WithConformanceMode_def NewCborWriter_def pushFrame_def
      writeMinimalInitialByte_def canonicalMode_def)

theorem nesting_cap_witness:
  "fst (writeStartArrays 4 (WithMaxNestingDepth 3 NewCborWriter))
     = [None, None, None, Some ErrNestingDepthExceeded]
   \<and> fst (readStartArrays 4 (WithReaderMaxNestingDepth 3 (NewCborReader [0x81, 0x81, 0x81, 0x81])))
     = [Ok 1, Ok 1, Ok 1, Err ErrNestingDepthExceeded]
   \<and> int (length (nestingStack (WithMaxNestingDepth 0 NewCborWriter)))
       \<ge> maxNestingDepth (WithMaxNestingDepth 0 NewCborWriter)
   \<and> \<not> canonicalMode (WithMaxNestingDepth 0 NewCborWriter)
   \<and> WriteStartIndefiniteLengthMap (WithMaxNestingDepth 0 NewCborWriter)
       = (Some ErrNestingDepthExceeded, WithMaxNestingDepth 0 NewCborWriter)
   \<and> int (length (rNestingStack (WithReaderMaxNestingDepth 0 (NewCborReader [0x81]))))
       \<ge> rMaxNestingDepth (WithReaderMaxNestingDepth 0 (NewCborReader [0x81]))
   \<and> fst (PeekState (WithReaderMaxNestingDepth 0 (NewCborReader [0x81]))) = Ok StateStartArray
   \<and> fst (ReadStartArray (WithReaderMaxNestingDepth 0 (NewCborReader [0x81])))
       = Err ErrNestingDepthExceeded
   \<and> canonicalMode (WithConformanceMode ConformanceCtap2Canonical NewCborWriter)
   \<and> WriteStartIndefiniteLengthTextString
         (WithConformanceMode ConformanceCtap2Canonical NewCborWriter)
       = (Some ErrIndefiniteLengthNotAllowed,
          WithConformanceMode ConformanceCtap2Canonical NewCborWriter)
   \<and> int (length (nestingStack NewCborWriter)) < maxNestingDepth NewCborWriter
   \<and> fst (WriteStartMap 2 NewCborWriter) = None
   \<and> length (nestingStack (snd (WriteStartMap 2 NewCborWriter))) = 1
   \<and> int (length (rNestingStack (NewCborReader [0x81])))
       < rMaxNestingDepth (NewCborReader [0x81])
   \<and> fst (ReadStartArray (NewCborReader [0x81])) \<noteq> Err ErrNestingDepthExceeded"
proof -
  let ?wc = "WithConformanceMode ConformanceCtap2Canonical NewCborWriter"
  let ?r1 = "NewCborReader [0x81]"
  have hc: "canonicalMode ?wc"
    by (simp add: WithConformanceMode_def NewCborWriter_def canonicalMode_def)
  have hb: "int (length (nestingStack NewCborWriter)) < maxNestingDepth NewCborWriter"
    by (simp add: NewCborWriter_def)
  have hrb: "int (length (rNestingStack ?r1)) < rMaxNestingDepth ?r1"
    by simp
  from nesting_cap [of ?wc 1 ?r1 1 3] hc hrb
  have c1: "WriteStartIndefiniteLengthTextString ?wc = (Some ErrIndefiniteLengthNotAllowed, ?wc)"
    and c2: "fst (ReadStartArray ?r1) \<noteq> Err ErrNestingDepthExceeded"
    by blast+
  from nesting_cap [of NewCborWriter 2 ?r1 1 3] hb
  have c3: "fst (WriteStartMap 2 NewCborWriter) = None"
    and c4: "length (nestingStack (snd (WriteStartMap 2 NewCborWriter)))
             = Suc (length (nestingStack NewCborWriter))"
    by blast+
  let ?w3 = "WithMaxNestingDepth 3 NewCborWriter"
  let ?w0 = "WithMaxNestingDepth 0 NewCborWriter"
  let ?r0 = "WithReaderMaxNestingDepth 0 (NewCborReader [0x81])"
  have h3: "maxNestingDepth ?w3 = int 3 \<and> nestingStack ?w3 = []"
    by (simp add: WithMaxNestingDepth_def NewCborWriter_def)
  have h0: "int (length (nestingStack ?w0)) \<ge> maxNestingDepth ?w0" "\<not> canonicalMode ?w0"
    by (simp_all add: WithMaxNestingDepth_def NewCborWriter_def canonicalMode_def)
  have hr: "int (length (rNestingStack ?r0)) \<ge> rMaxNestingDepth ?r0"
    by (simp add: WithReaderMaxNestingDepth_def NewCborReader_def)
  have dr: "drop (offset ?r0) (data ?r0) = argBytes MajorTypeArray 1 @ []"
    by (simp add: WithReaderMaxNestingDepth_def NewCborReader_def argBytes_array_1)
  have cs: "computeState ?r0 = Ok StateStartArray"
    using computeState_argBytes [OF _ dr]
    by (simp add: WithReaderMaxNestingDepth_def NewCborReader_def)
  have pk: "fst (PeekState ?r0) = Ok StateStartArray"
    using cs by (simp add: PeekState_def WithReaderMaxNestingDepth_def NewCborReader_def)
  have r3: "replicate 3 x = [x, x, x]" for x :: 'a
    by (simp add: numeral_3_eq_3)
  have d4: "replicate 4 (0x81::byte) = [0x81, 0x81, 0x81, 0x81]"
    by (simp add: numeral_eq_Suc)
  from nesting_cap [of ?w3 1 ?r0 1 3]
  have s: "fst (writeStartArrays (Suc 3) ?w3) = replicate 3 None @ [Some ErrNestingDepthExceeded]"
    and t: "fst (readStartArrays (Suc 3)
          (WithReaderMaxNestingDepth (int 3) (NewCborReader (replicate (Suc 3) 0x81))))
       = replicate 3 (Ok 1) @ [Err ErrNestingDepthExceeded]"
    and k: "fst (ReadStartArray ?r0) = Err ErrNestingDepthExceeded"
    using h3 hr pk by blast+
  from nesting_cap [of ?w0 1 ?r0 1 3] h0
  have m: "WriteStartIndefiniteLengthMap ?w0 = (Some ErrNestingDepthExceeded, ?w0)"
    by blast
  show ?thesis
    using s t k m h0 hr pk hc hb hrb c1 c2 c3 c4 by (simp add: r3 d4 NewCborWriter_def)
qed

section \<open>A break byte in a definite frame with a huge declared count\<close>

text \<open>
  Claim C6. The head \<open>9b ff ff ff ff ff ff ff fb\<close> declares an array of \<open>2^64 - 5\<close> items.
  \<open>ReadStartArray\<close> stores the count as \<open>int64(length)\<close>, which is \<open>-5\<close>, so with no item
  read the test \<open>itemsRead >= definiteLength\<close> of \<open>computeState\<close> already holds: on the
  break byte that follows, \<open>PeekState\<close> yields \<open>StateEndArray\<close> although the frame is
  definite and has read none of the items it declares, where \<open>UnexpectedBreak\<close> is due.
\<close>

theorem PeekState_break_byte_huge_count:
  "fst (ReadStartArray (NewCborReader [0x9B, 0xFF, 0xFF, 0xFF, 0xFF, 0xFF, 0xFF, 0xFF, 0xFB, 0xFF]))
     = Ok (- 5)
   \<and> rNestingStack (snd (ReadStartArray
        (NewCborReader [0x9B, 0xFF, 0xFF, 0xFF, 0xFF, 0xFF, 0xFF, 0xFF, 0xFB, 0xFF])))
     = [\<lparr>rMajorType = MajorTypeArray, rDefiniteLength = 0xFFFFFFFFFFFFFFFB, itemsRead = 0,
         rIsMap = False, keyRead = False, rIsIndefinite = False\<rparr>]
   \<and> data (snd (ReadStartArray
        (NewCborReader [0x9B, 0xFF, 0xFF, 0xFF, 0xFF, 0xFF, 0xFF, 0xFF, 0xFB, 0xFF])))
       ! offset (snd (ReadStartArray
        (NewCborReader [0x9B, 0xFF, 0xFF, 0xFF, 0xFF, 0xFF, 0xFF, 0xFF, 0xFB, 0xFF])))
     = breakByte
   \<and> fst (PeekState (snd (ReadStartArray
        (NewCborReader [0x9B, 0xFF, 0xFF, 0xFF, 0xFF, 0xFF, 0xFF, 0xFF, 0xFB, 0xFF]))))
     = Ok StateEndArray"
  by code_simp

section \<open>ReadBigInt on a negative integer that does not fit in int64\<close>

text \<open>
  Claim C5. For a negative integer whose argument exceeds the greatest \<open>int64\<close>,
  \<open>ReadBigInt\<close> first calls \<open>ReadInt64\<close>, which has consumed the whole item when it
  returns \<open>ErrOverflow\<close>; the fallback then decodes an argument again, at the offset
  \<open>ReadInt64\<close> left behind. On \<open>3b ff ff ff ff ff ff ff ff\<close> (the integer \<open>- 2^64\<close>) alone it
  returns \<open>UnexpectedEndOfData\<close>; followed by the item \<open>20\<close> (the integer \<open>- 1\<close>) it returns
  \<open>- 1\<close> and has consumed both items; on \<open>3b 80 00 00 00 00 00 00 00\<close> (\<open>- 2^63 - 1\<close>)
  followed by \<open>01\<close> it returns the type mismatch of \<open>readArgumentValue\<close> (which carries
  the major types 1 and 0 converted to reader states). The value \<open>- 1 - v\<close> is never returned.
\<close>

theorem ReadBigInt_negative_overflow:
  "fst (ReadBigInt (NewCborReader [0x3B, 0xFF, 0xFF, 0xFF, 0xFF, 0xFF, 0xFF, 0xFF, 0xFF]))
     = Err ErrUnexpectedEndOfData
   \<and> fst (ReadBigInt (NewCborReader [0x3B, 0xFF, 0xFF, 0xFF, 0xFF, 0xFF, 0xFF, 0xFF, 0xFF, 0x20]))
     = Ok (- 1)
   \<and> offset (snd (ReadBigInt
        (NewCborReader [0x3B, 0xFF, 0xFF, 0xFF, 0xFF, 0xFF, 0xFF, 0xFF, 0xFF, 0x20]))) = 10
   \<and> fst (ReadBigInt (NewCborReader [0x3B, 0x80, 0, 0, 0, 0, 0, 0, 0, 0x01]))
     = Err (TypeMismatchError 1 0)
   \<and> fst (ReadInt64 (NewCborReader [0x3B, 0xFF, 0xFF, 0xFF, 0xFF, 0xFF, 0xFF, 0xFF, 0xFF]))
     = Err ErrOverflow
   \<and> offset (snd (ReadInt64
        (NewCborReader [0x3B, 0xFF, 0xFF, 0xFF, 0xFF, 0xFF, 0xFF, 0xFF, 0xFF]))) = 9"
  by code_simp

section \<open>ReadBigInt on a negative integer in a non-minimal encoding\<close>

text \<open>
  Claim C3. \<open>readArgumentValue\<close> rejects every non-minimal argument in the strict and
  canonical modes, and \<open>ReadUint64\<close> and \<open>ReadInt64\<close> pass the error on: in strict mode
  \<open>18 17\<close> fails with \<open>NonCanonical\<close>, in lax mode it reads as 23. \<open>ReadBigInt\<close>
  on a negative integer does not: it takes the \<open>NonCanonical\<close> of \<open>ReadInt64\<close> for an
  overflow and decodes again at the offset left behind. In strict mode \<open>38 17\<close> alone
  gives \<open>UnexpectedEndOfData\<close>, and \<open>38 17 20\<close> is accepted with the value \<open>- 1\<close>.
\<close>

theorem ReadBigInt_non_minimal_not_rejected:
  "fst (ReadBigInt (WithReaderConformanceMode ConformanceStrict (NewCborReader [0x38, 0x17])))
     = Err ErrUnexpectedEndOfData
   \<and> fst (ReadBigInt (WithReaderConformanceMode ConformanceStrict
            (NewCborReader [0x38, 0x17, 0x20])))
     = Ok (- 1)
   \<and> fst (ReadBigInt (WithReaderConformanceMode ConformanceCanonical
            (NewCborReader [0x39, 0x00, 0x17, 0x20])))
     = Ok (- 1)
   \<and> fst (ReadInt64 (WithReaderConformanceMode ConformanceStrict (NewCborReader [0x38, 0x17])))
     = Err ErrNonCanonical
   \<and> fst (ReadUint64 (WithReaderConformanceMode ConformanceStrict (NewCborReader [0x18, 0x17])))
     = Err ErrNonCanonical
   \<and> fst (ReadUint64 (WithReaderConformanceMode ConformanceLax (NewCborReader [0x18, 0x17])))
     = Ok 23"
  by code_simp

section \<open>Truncated input\<close>





















lemma computeState_cache_irrelevant [simp]:
  "computeState (r\<lparr>cachedState := s, stateComputed := b\<rparr>) = computeState r"
  by (simp add: computeState_def Let_def)





















end
